theory Spec2Isabelle
  imports Main "HOL-Library.AList"
begin

section \<open>Python values used by task_manager.py\<close>

text \<open>
  Exceptions of the Python runtime that the functions of \<open>task_manager.py\<close> can raise.
  A function that can raise returns \<open>error + 'a\<close>, with \<open>Inl\<close> for the exception.
\<close>

datatype error =
    ValueError
  | IndexError
  | KeyError string
  | EOFError
  | ZeroDivisionError
  | FileNotFoundError
  | UnboundLocalError

subsection \<open>Strings\<close>

text \<open>\<open>s.split(sep)\<close> for a separator of one character: never returns the empty list.\<close>

fun split_on :: "char \<Rightarrow> string \<Rightarrow> string list" where
  "split_on c [] = [[]]"
| "split_on c (x # xs) =
     (if x = c then [] # split_on c xs
      else (case split_on c xs of
              [] \<Rightarrow> [[x]]
            | w # ws \<Rightarrow> (x # w) # ws))"

text \<open>\<open>sep.join(parts)\<close> for a separator of one character.\<close>

fun join :: "char \<Rightarrow> string list \<Rightarrow> string" where
  "join c [] = []"
| "join c [w] = w"
| "join c (w # v # ws) = w @ c # join c (v # ws)"

text \<open>
  \<open>str.isspace\<close> on one character, for the code points below 256:
  TAB, LF, VT, FF, CR, the separators 28 to 31, SPACE, NEL (133) and NBSP (160).
\<close>

definition is_space :: "char \<Rightarrow> bool" where
  "is_space c =
     (let n = (of_char c :: nat)
      in (9 \<le> n \<and> n \<le> 13) \<or> (28 \<le> n \<and> n \<le> 32) \<or> n = 133 \<or> n = 160)"

text \<open>\<open>s.strip()\<close>: leading and trailing whitespace removed.\<close>

definition strip :: "string \<Rightarrow> string" where
  "strip s = rev (dropWhile is_space (rev (dropWhile is_space s)))"

definition is_digit :: "char \<Rightarrow> bool" where
  "is_digit c = (let n = (of_char c :: nat) in 48 \<le> n \<and> n \<le> 57)"

definition digit_val :: "char \<Rightarrow> nat" where
  "digit_val c = (of_char c :: nat) - 48"

definition digit_char :: "nat \<Rightarrow> char" where
  "digit_char n = char_of (48 + n)"

text \<open>\<open>str(n)\<close> for a non-negative integer, and for any integer.\<close>

fun str_nat :: "nat \<Rightarrow> string" where
  "str_nat n = (if n < 10 then [digit_char n] else str_nat (n div 10) @ [digit_char (n mod 10)])"

declare str_nat.simps [simp del]

definition str_int :: "int \<Rightarrow> string" where
  "str_int i = (if i < 0 then CHR ''-'' # str_nat (nat (- i)) else str_nat (nat i))"

text \<open>
  \<open>int(s)\<close> in base ten: whitespace around the number is skipped, one sign is allowed, then
  digits, where a single underscore may stand between two digits. Anything else raises
  ValueError. The whitespace that \<open>int\<close> skips is that of C (TAB, LF, VT, FF, CR, SPACE) and,
  above ASCII, NEL (133) and NBSP (160); unlike \<open>str.strip\<close> it does not skip the separators
  28 to 31.
\<close>

definition is_int_space :: "char \<Rightarrow> bool" where
  "is_int_space c =
     (let n = (of_char c :: nat)
      in (9 \<le> n \<and> n \<le> 13) \<or> n = 32 \<or> n = 133 \<or> n = 160)"

fun after_digit :: "nat \<Rightarrow> string \<Rightarrow> nat option" where
  "after_digit acc [] = Some acc"
| "after_digit acc (c # cs) =
     (if is_digit c then after_digit (acc * 10 + digit_val c) cs
      else if c = CHR ''_'' then
        (case cs of
           [] \<Rightarrow> None
         | d # ds \<Rightarrow> if is_digit d then after_digit (acc * 10 + digit_val d) ds else None)
      else None)"

definition unsigned_digits :: "string \<Rightarrow> nat option" where
  "unsigned_digits s =
     (case s of
        [] \<Rightarrow> None
      | c # cs \<Rightarrow> if is_digit c then after_digit (digit_val c) cs else None)"

definition py_int :: "string \<Rightarrow> error + int" where
  "py_int s =
     (let t = rev (dropWhile is_int_space (rev (dropWhile is_int_space s)));
          r = (case t of
                 [] \<Rightarrow> None
               | c # cs \<Rightarrow>
                   if c = CHR ''-'' then map_option (\<lambda>n. - int n) (unsigned_digits cs)
                   else if c = CHR ''+'' then map_option int (unsigned_digits cs)
                   else map_option int (unsigned_digits t))
      in case r of None \<Rightarrow> Inl ValueError | Some i \<Rightarrow> Inr i)"

text \<open>\<open>xs[i]\<close> for a non-negative index: IndexError out of range.\<close>

definition nth_py :: "'a list \<Rightarrow> nat \<Rightarrow> error + 'a" where
  "nth_py xs i = (if i < length xs then Inr (xs ! i) else Inl IndexError)"

subsection \<open>Dates\<close>

text \<open>
  A \<open>datetime.datetime\<close> object (naive, no time zone). Python compares two of them as the
  tuples of their seven fields.
\<close>

record datetime =
  year :: nat
  month :: nat
  day :: nat
  hour :: nat
  minute :: nat
  second :: nat
  microsecond :: nat

fun lex_less :: "nat list \<Rightarrow> nat list \<Rightarrow> bool" where
  "lex_less (x # xs) (y # ys) = (x < y \<or> (x = y \<and> lex_less xs ys))"
| "lex_less _ _ = False"

definition dt_fields :: "datetime \<Rightarrow> nat list" where
  "dt_fields d = [year d, month d, day d, hour d, minute d, second d, microsecond d]"

text \<open>\<open>a < b\<close>, \<open>a > b\<close> and \<open>a <= b\<close> on datetime objects.\<close>

definition dt_less :: "datetime \<Rightarrow> datetime \<Rightarrow> bool" where
  "dt_less a b = lex_less (dt_fields a) (dt_fields b)"

definition dt_greater :: "datetime \<Rightarrow> datetime \<Rightarrow> bool" where
  "dt_greater a b = dt_less b a"

definition dt_le :: "datetime \<Rightarrow> datetime \<Rightarrow> bool" where
  "dt_le a b = (\<not> dt_less b a)"

text \<open>
  The value of a date field of a task: \<open>due_date\<close> always holds a datetime (it comes from
  \<open>strptime\<close>); \<open>assigned_date\<close> holds a datetime when the task was loaded from the file and
  a \<open>datetime.date\<close> (from \<open>date.today()\<close>) when the task was added in this session.
\<close>

datatype pydate = PyDate nat nat nat | PyDatetime datetime

definition is_leap :: "nat \<Rightarrow> bool" where
  "is_leap y = (y mod 4 = 0 \<and> (y mod 100 \<noteq> 0 \<or> y mod 400 = 0))"

definition days_in_month :: "nat \<Rightarrow> nat \<Rightarrow> nat" where
  "days_in_month y m =
     (if m = 2 then (if is_leap y then 29 else 28)
      else if m = 4 \<or> m = 6 \<or> m = 9 \<or> m = 11 then 30
      else 31)"

text \<open>The year, month and day that the constructors of \<open>date\<close> and \<open>datetime\<close> accept.\<close>

definition valid_ymd :: "nat \<Rightarrow> nat \<Rightarrow> nat \<Rightarrow> bool" where
  "valid_ymd y m d =
     (1 \<le> y \<and> y \<le> 9999 \<and> 1 \<le> m \<and> m \<le> 12 \<and> 1 \<le> d \<and> d \<le> days_in_month y m)"

definition zero_pad :: "nat \<Rightarrow> string \<Rightarrow> string" where
  "zero_pad n s = replicate (n - length s) CHR ''0'' @ s"

text \<open>
  \<open>strftime("%d-%m-%Y")\<close>, the only format of the program (DATETIME_STRING_FORMAT): day and
  month are zero-padded to two digits. The year is written by the C library, which on
  Linux does not pad it: a year below 1000 has fewer than four digits.
\<close>

definition strftime_ymd :: "nat \<Rightarrow> nat \<Rightarrow> nat \<Rightarrow> string" where
  "strftime_ymd y m d =
     zero_pad 2 (str_nat d) @ CHR ''-'' # zero_pad 2 (str_nat m) @ CHR ''-'' # str_nat y"

definition strftime :: "datetime \<Rightarrow> string" where
  "strftime t = strftime_ymd (year t) (month t) (day t)"

fun strftime_pydate :: "pydate \<Rightarrow> string" where
  "strftime_pydate (PyDate y m d) = strftime_ymd y m d"
| "strftime_pydate (PyDatetime t) = strftime t"

text \<open>
  \<open>datetime.strptime(s, "%d-%m-%Y")\<close>. The module \<open>_strptime\<close> matches the regular expression
  \<open>(3[0-1]|[1-2]\d|0[1-9]|[1-9]| [1-9])-(1[0-2]|0[1-9]|[1-9])-(\d\d\d\d)\<close> at the start of
  \<open>s\<close> and refuses text left over. No alternative for the day or the month contains a
  hyphen, and each is followed by one, so the match succeeds exactly when splitting \<open>s\<close> at
  its hyphens gives three parts that each match their group. The values are then handed to
  the datetime constructor, which refuses a day that the month does not have and the year 0.
\<close>

definition day_directive :: "string \<Rightarrow> bool" where
  "day_directive s =
     (case s of
        [a] \<Rightarrow> is_digit a \<and> a \<noteq> CHR ''0''
      | [a, b] \<Rightarrow>
          (a = CHR ''3'' \<and> (b = CHR ''0'' \<or> b = CHR ''1''))
          \<or> ((a = CHR ''1'' \<or> a = CHR ''2'') \<and> is_digit b)
          \<or> ((a = CHR ''0'' \<or> a = CHR '' '') \<and> is_digit b \<and> b \<noteq> CHR ''0'')
      | _ \<Rightarrow> False)"

definition month_directive :: "string \<Rightarrow> bool" where
  "month_directive s =
     (case s of
        [a] \<Rightarrow> is_digit a \<and> a \<noteq> CHR ''0''
      | [a, b] \<Rightarrow>
          (a = CHR ''1'' \<and> (b = CHR ''0'' \<or> b = CHR ''1'' \<or> b = CHR ''2''))
          \<or> (a = CHR ''0'' \<and> is_digit b \<and> b \<noteq> CHR ''0'')
      | _ \<Rightarrow> False)"

definition year_directive :: "string \<Rightarrow> bool" where
  "year_directive s = (length s = 4 \<and> list_all is_digit s)"

text \<open>The number a matched group stands for: \<open>int\<close> of its text (a leading blank is stripped).\<close>

definition group_value :: "string \<Rightarrow> nat" where
  "group_value s = foldl (\<lambda>acc c. acc * 10 + digit_val c) 0 (filter is_digit s)"

definition strptime :: "string \<Rightarrow> error + datetime" where
  "strptime s =
     (case split_on CHR ''-'' s of
        [ds, ms, ys] \<Rightarrow>
          if day_directive ds \<and> month_directive ms \<and> year_directive ys then
            (let d = group_value ds; m = group_value ms; y = group_value ys
             in if valid_ymd y m d
                then Inr \<lparr>year = y, month = m, day = d,
                          hour = 0, minute = 0, second = 0, microsecond = 0\<rparr>
                else Inl ValueError)
          else Inl ValueError
      | _ \<Rightarrow> Inl ValueError)"

subsection \<open>Floating point\<close>

text \<open>
  A non-negative finite IEEE 754 double, as the number \<open>mantissa * 2 ^ exponent\<close>. The
  program only divides one task count by another and multiplies the quotient by 100, so
  negative numbers, infinities and NaN never arise; the exponent range is not modelled
  (a count of tasks stays far below \<open>2 ^ 1023\<close>).
\<close>

datatype double = Double (mantissa: nat) (exponent: int)

fun bit_length :: "nat \<Rightarrow> nat" where
  "bit_length n = (if n = 0 then 0 else Suc (bit_length (n div 2)))"

declare bit_length.simps [simp del]

text \<open>The integer nearest to \<open>n / d\<close>, a tie going to the even one (the IEEE default).\<close>

definition round_half_even :: "nat \<Rightarrow> nat \<Rightarrow> nat" where
  "round_half_even n d =
     (let q = n div d; r = n mod d
      in if 2 * r < d then q
         else if d < 2 * r then q + 1
         else if even q then q else q + 1)"

text \<open>
  The double nearest to the rational \<open>n / d\<close> (\<open>d > 0\<close>): with \<open>2 ^ e \<le> n / d < 2 ^ (e + 1)\<close>,
  the quotient is scaled to 53 significant bits and rounded.
\<close>

definition round_to_double :: "nat \<Rightarrow> nat \<Rightarrow> double" where
  "round_to_double n d =
     (if n = 0 then Double 0 0
      else
        (let e0 = int (bit_length n) - int (bit_length d);
             e = (if (if 0 \<le> e0 then d * 2 ^ nat e0 \<le> n else d \<le> n * 2 ^ nat (- e0))
                  then e0 else e0 - 1);
             s = 52 - e
         in Double (if 0 \<le> s then round_half_even (n * 2 ^ nat s) d
                    else round_half_even n (d * 2 ^ nat (- s)))
                   (- s)))"

text \<open>\<open>a / b\<close> on two non-negative ints: the correctly rounded quotient, as CPython computes it.\<close>

definition py_truediv :: "nat \<Rightarrow> nat \<Rightarrow> error + double" where
  "py_truediv a b = (if b = 0 then Inl ZeroDivisionError else Inr (round_to_double a b))"

text \<open>\<open>x * k\<close> for a double \<open>x\<close> and a small non-negative int \<open>k\<close>: the exact product, rounded.\<close>

definition py_float_mul :: "double \<Rightarrow> nat \<Rightarrow> double" where
  "py_float_mul x k =
     (if 0 \<le> exponent x then round_to_double (mantissa x * k * 2 ^ nat (exponent x)) 1
      else round_to_double (mantissa x * k) (2 ^ nat (- exponent x)))"

text \<open>\<open>int(x)\<close> for a non-negative double: truncation.\<close>

definition py_int_of_float :: "double \<Rightarrow> nat" where
  "py_int_of_float x =
     (if 0 \<le> exponent x then mantissa x * 2 ^ nat (exponent x)
      else mantissa x div 2 ^ nat (- exponent x))"


section \<open>Task records and the two files\<close>

text \<open>
  A task is a dict with the keys below; \<open>task_number\<close> is only present (\<open>Some\<close>) in the
  dicts that \<open>view_my_tasks_option\<close> has annotated.
\<close>

record task =
  number :: int
  username :: string
  title :: string
  description :: string
  due_date :: datetime
  assigned_date :: pydate
  completed :: bool
  task_number :: "int option"

text \<open>
  What the program prints, one constructor for each message (separator lines, menus' layout
  and the prompts of \<open>input\<close> are not recorded).
\<close>

datatype message =
    Out_your_tasks
  | Out_my_task task
  | Out_no_tasks_assigned
  | Out_invalid_task_number
  | Out_task_details task
  | Out_edit_menu
  | Out_username_updated
  | Out_due_date_updated
  | Out_complete_updated
  | Out_no_change_made
  | Out_invalid_option
  | Out_cannot_be_edited
  | Out_user_does_not_exist
  | Out_invalid_date_format
  | Out_task_added nat

text \<open>
  The world the program runs in: the contents of \<open>user.txt\<close> and \<open>tasks.txt\<close> (\<open>None\<close> when
  the file does not exist), the lines still to be read from standard input, and what has
  been printed so far.
\<close>

record world =
  user_txt :: "string option"
  tasks_txt :: "string option"
  stdin :: "string list"
  stdout :: "message list"

definition print_msg :: "message \<Rightarrow> world \<Rightarrow> world" where
  "print_msg m w = w\<lparr>stdout := stdout w @ [m]\<rparr>"

text \<open>\<open>input()\<close>: the next line of standard input, EOFError when there is none.\<close>

definition input_line :: "world \<Rightarrow> error + (string \<times> world)" where
  "input_line w =
     (case stdin w of
        [] \<Rightarrow> Inl EOFError
      | l # ls \<Rightarrow> Inr (l, w\<lparr>stdin := ls\<rparr>))"

text \<open>
  Reading a file opened in text mode translates \<open>\r\n\<close> and \<open>\r\<close> to \<open>\n\<close>
  (universal newlines).
\<close>

fun universal_newlines :: "string \<Rightarrow> string" where
  "universal_newlines [] = []"
| "universal_newlines (c # cs) =
     (if c = CHR 0x0D then
        (case cs of
           [] \<Rightarrow> [CHR 0x0A]
         | d # ds \<Rightarrow>
             if d = CHR 0x0A then CHR 0x0A # universal_newlines ds
             else CHR 0x0A # universal_newlines cs)
      else c # universal_newlines cs)"

text \<open>The lines of a text, each with its terminating \<open>\n\<close> (\<open>readlines\<close>, file iteration).\<close>

fun lines_keepends :: "string \<Rightarrow> string list" where
  "lines_keepends [] = []"
| "lines_keepends (c # cs) =
     (if c = CHR 0x0A then [c] # lines_keepends cs
      else (case lines_keepends cs of
              [] \<Rightarrow> [[c]]
            | l # ls \<Rightarrow> (c # l) # ls))"

text \<open>\<open>create_user_file_if_not_found\<close>\<close>

definition create_user_file_if_not_found :: "world \<Rightarrow> world" where
  "create_user_file_if_not_found w =
     (case user_txt w of
        None \<Rightarrow> w\<lparr>user_txt := Some ''admin;password''\<rparr>
      | Some _ \<Rightarrow> w)"

text \<open>
  \<open>read_users_file\<close>: the dict \<open>username_password\<close> is an association list in insertion
  order; \<open>d[k] = v\<close> is \<open>AList.update k v d\<close>. A line that does not split into exactly two
  fields fails the tuple unpacking with ValueError.
\<close>

fun read_users_lines :: "string list \<Rightarrow> (string \<times> string) list \<Rightarrow> error + (string \<times> string) list" where
  "read_users_lines [] username_password = Inr username_password"
| "read_users_lines (line # rest) username_password =
     (case split_on CHR '';'' (strip line) of
        [u, p] \<Rightarrow> read_users_lines rest (AList.update u p username_password)
      | _ \<Rightarrow> Inl ValueError)"

definition read_users_file :: "world \<Rightarrow> error + (string \<times> string) list" where
  "read_users_file w =
     (case user_txt w of
        None \<Rightarrow> Inl FileNotFoundError
      | Some content \<Rightarrow> read_users_lines (lines_keepends (universal_newlines content)) [])"

definition create_user_pass_dictionary :: "world \<Rightarrow> error + (string \<times> string) list" where
  "create_user_pass_dictionary w = read_users_file w"

text \<open>
  \<open>read_tasks_file\<close>: the non-empty lines of \<open>tasks.txt\<close>, each split at the semicolons; a
  missing file is created empty.
\<close>

definition read_tasks_file :: "world \<Rightarrow> string list list \<times> world" where
  "read_tasks_file w =
     (case tasks_txt w of
        None \<Rightarrow> ([], w\<lparr>tasks_txt := Some []\<rparr>)
      | Some content \<Rightarrow>
          (map (split_on CHR '';'')
             (filter (\<lambda>t. t \<noteq> []) (split_on CHR 0x0A (universal_newlines content))), w))"

text \<open>
  \<open>create_task_list\<close>: the body of the loop builds the dict for line \<open>i\<close>, reading the
  components in the order of the source; the first failing read decides the exception.
\<close>

definition create_task_list_item :: "nat \<Rightarrow> string list \<Rightarrow> error + task" where
  "create_task_list_item i task_components =
     (case nth_py task_components 1 of Inl e \<Rightarrow> Inl e | Inr c1 \<Rightarrow>
      case nth_py task_components 2 of Inl e \<Rightarrow> Inl e | Inr c2 \<Rightarrow>
      case nth_py task_components 3 of Inl e \<Rightarrow> Inl e | Inr c3 \<Rightarrow>
      case nth_py task_components 4 of Inl e \<Rightarrow> Inl e | Inr c4 \<Rightarrow>
      case strptime c4 of Inl e \<Rightarrow> Inl e | Inr due \<Rightarrow>
      case nth_py task_components 5 of Inl e \<Rightarrow> Inl e | Inr c5 \<Rightarrow>
      case strptime c5 of Inl e \<Rightarrow> Inl e | Inr assigned \<Rightarrow>
      case nth_py task_components 6 of Inl e \<Rightarrow> Inl e | Inr c6 \<Rightarrow>
        Inr \<lparr>number = int i, username = c1, title = c2, description = c3,
             due_date = due, assigned_date = PyDatetime assigned,
             completed = (if c6 = ''Yes'' then True else False),
             task_number = None\<rparr>)"

fun create_task_list_from :: "nat \<Rightarrow> string list list \<Rightarrow> error + task list" where
  "create_task_list_from i [] = Inr []"
| "create_task_list_from i (task_components # rest) =
     (case create_task_list_item i task_components of
        Inl e \<Rightarrow> Inl e
      | Inr curr_t \<Rightarrow>
          (case create_task_list_from (Suc i) rest of
             Inl e \<Rightarrow> Inl e
           | Inr task_list \<Rightarrow> Inr (curr_t # task_list)))"

definition create_task_list :: "string list list \<Rightarrow> error + task list" where
  "create_task_list task_data = create_task_list_from 1 task_data"

text \<open>\<open>add_new_task_to_task_list\<close>: \<open>curr_date\<close> is a \<open>date\<close>, not a datetime.\<close>

definition add_new_task_to_task_list ::
  "task list \<Rightarrow> string \<Rightarrow> string \<Rightarrow> string \<Rightarrow> datetime \<Rightarrow> pydate \<Rightarrow> task list" where
  "add_new_task_to_task_list task_list task_username task_title task_description due_date_time curr_date =
     task_list @
       [\<lparr>number = int (length task_list) + 1, username = task_username, title = task_title,
         description = task_description, due_date = due_date_time, assigned_date = curr_date,
         completed = False, task_number = None\<rparr>]"

text \<open>
  \<open>write_new_task_to_tasks_file\<close>: the file is rewritten with one line for each task. The
  final \<open>print\<close> reads the loop variable \<open>i\<close>, which is unbound when the list is empty: the
  file has been written (empty) and the function raises.
\<close>

definition task_line :: "nat \<Rightarrow> task \<Rightarrow> string" where
  "task_line i t =
     join CHR '';''
       [str_nat i, username t, title t, description t,
        strftime (due_date t), strftime_pydate (assigned_date t),
        (if completed t then ''Yes'' else ''No'')] @ [CHR 0x0A]"

fun task_lines_from :: "nat \<Rightarrow> task list \<Rightarrow> string list" where
  "task_lines_from i [] = []"
| "task_lines_from i (t # ts) = task_line i t # task_lines_from (Suc i) ts"

definition write_new_task_to_tasks_file :: "task list \<Rightarrow> world \<Rightarrow> world \<times> error option" where
  "write_new_task_to_tasks_file task_list w =
     (let w1 = w\<lparr>tasks_txt := Some (concat (task_lines_from 1 task_list))\<rparr>
      in if task_list = [] then (w1, Some UnboundLocalError)
         else (print_msg (Out_task_added (length task_list)) w1, None))"

text \<open>
  \<open>view_my_tasks_option\<close>: the loop runs over the whole task list with \<open>enumerate\<close>, and a
  task of the current user gets the loop index \<open>i\<close> as its \<open>task_number\<close>.
\<close>

fun my_tasks_from :: "string \<Rightarrow> nat \<Rightarrow> task list \<Rightarrow> world \<Rightarrow> task list \<times> world" where
  "my_tasks_from curr_user i [] w = ([], w)"
| "my_tasks_from curr_user i (t # ts) w =
     (if username t = curr_user then
        (let w1 = print_msg (Out_my_task t) w;
             t1 = t\<lparr>task_number := Some (int i)\<rparr>;
             (my_task_list, w2) = my_tasks_from curr_user (Suc i) ts w1
         in (t1 # my_task_list, w2))
      else my_tasks_from curr_user (Suc i) ts w)"

definition view_my_tasks_option :: "string \<Rightarrow> world \<Rightarrow> error + (task list \<times> world)" where
  "view_my_tasks_option curr_user w =
     (let (task_data, w1) = read_tasks_file w
      in case create_task_list task_data of
           Inl e \<Rightarrow> Inl e
         | Inr task_list \<Rightarrow>
             (let w2 = print_msg Out_your_tasks w1;
                  (my_task_list, w3) = my_tasks_from curr_user 1 task_list w2;
                  w4 = (if my_task_list = [] then print_msg Out_no_tasks_assigned w3 else w3)
              in Inr (my_task_list, w4)))"


section \<open>Editing a task\<close>

text \<open>\<open>s.lower()\<close> for the code points below 256 (A to Z and the capital letters of Latin-1).\<close>

definition lower_char :: "char \<Rightarrow> char" where
  "lower_char c =
     (let n = (of_char c :: nat)
      in if (65 \<le> n \<and> n \<le> 90) \<or> (192 \<le> n \<and> n \<le> 222 \<and> n \<noteq> 215) then char_of (n + 32) else c)"

definition lower :: "string \<Rightarrow> string" where
  "lower s = map lower_char s"

text \<open>\<open>validate_data_entry\<close>: asks again until the data is not empty.\<close>

function validate_data_entry :: "string \<Rightarrow> world \<Rightarrow> error + (string \<times> world)" where
  "validate_data_entry data w =
     (if data = [] then
        (case input_line w of
           Inl e \<Rightarrow> Inl e
         | Inr (l, w1) \<Rightarrow> validate_data_entry l w1)
      else Inr (data, w))"
  by pat_completeness auto
termination
  by (relation "measure (\<lambda>(data, w). length (stdin w))")
     (auto simp: input_line_def split: list.splits)

declare validate_data_entry.simps [simp del]

text \<open>
  \<open>validate_if_username_registered\<close>: asks again until the name is a key of
  \<open>username_password\<close>, and returns the name that passed.
\<close>

function validate_if_username_registered ::
  "string \<Rightarrow> (string \<times> string) list \<Rightarrow> world \<Rightarrow> error + (string \<times> world)" where
  "validate_if_username_registered task_username username_password w =
     (if map_of username_password task_username \<noteq> None then Inr (task_username, w)
      else
        (case input_line (print_msg Out_user_does_not_exist w) of
           Inl e \<Rightarrow> Inl e
         | Inr (l, w1) \<Rightarrow> validate_if_username_registered l username_password w1))"
  by pat_completeness auto
termination
  by (relation "measure (\<lambda>(u, up, w). length (stdin w))")
     (auto simp: input_line_def print_msg_def split: list.splits)

declare validate_if_username_registered.simps [simp del]

lemma validate_data_entry_stdin:
  "validate_data_entry data w = Inr (d, w') \<Longrightarrow> length (stdin w') \<le> length (stdin w)"
proof (induction data w rule: validate_data_entry.induct)
  case (1 data w)
  show ?case
  proof (cases "data = []")
    case True
    with "1.prems" obtain l w1 where
      i: "input_line w = Inr (l, w1)" and r: "validate_data_entry l w1 = Inr (d, w')"
      by (subst (asm) validate_data_entry.simps) (auto split: sum.splits)
    from "1.IH" [OF True i refl r] have "length (stdin w') \<le> length (stdin w1)" .
    moreover from i have "length (stdin w1) < length (stdin w)"
      by (auto simp: input_line_def split: list.splits)
    ultimately show ?thesis by simp
  next
    case False
    with "1.prems" show ?thesis
      by (subst (asm) validate_data_entry.simps) simp
  qed
qed

text \<open>
  \<open>validate_due_date_input\<close>: asks again after a ValueError of \<open>strptime\<close>; any other
  exception (the end of the input) leaves the loop.
\<close>

function validate_due_date_input :: "world \<Rightarrow> error + (datetime \<times> world)" where
  "validate_due_date_input w =
     (case input_line w of
        Inl e \<Rightarrow> Inl e
      | Inr (l, w1) \<Rightarrow>
          (case validate_data_entry l w1 of
             Inl e \<Rightarrow> Inl e
           | Inr (task_due_date_str, w2) \<Rightarrow>
               (case strptime task_due_date_str of
                  Inr due_date_time \<Rightarrow> Inr (due_date_time, w2)
                | Inl e \<Rightarrow>
                    if e = ValueError
                    then validate_due_date_input (print_msg Out_invalid_date_format w2)
                    else Inl e)))"
  by pat_completeness auto
termination
proof (relation "measure (\<lambda>w. length (stdin w))")
  show "wf (measure (\<lambda>w. length (stdin w)))" by simp
next
  fix w :: world and x2 l w1 x2a s w2 e
  assume i: "input_line w = Inr x2" and x: "(l, w1) = x2"
    and v: "validate_data_entry l w1 = Inr x2a" and y: "(s, w2) = x2a"
  from i x have "length (stdin w1) < length (stdin w)"
    by (auto simp: input_line_def split: list.splits)
  moreover from v y have "length (stdin w2) \<le> length (stdin w1)"
    using validate_data_entry_stdin [of l w1 s w2] by simp
  ultimately show "(print_msg Out_invalid_date_format w2, w) \<in> measure (\<lambda>w. length (stdin w))"
    by (simp add: print_msg_def)
qed

declare validate_due_date_input.simps [simp del]

text \<open>
  \<open>update_tasks_file\<close>: the first line of \<open>tasks.txt\<close> whose leading field, stripped, is the
  task's \<open>number\<close> is replaced by the task's record; the lines are written back.
\<close>

definition updated_line :: "task \<Rightarrow> string" where
  "updated_line t =
     str_int (number t) @ CHR '';'' # username t @ CHR '';'' # title t @ CHR '';'' #
     description t @ CHR '';'' # strftime (due_date t) @ CHR '';'' #
     strftime_pydate (assigned_date t) @ CHR '';'' #
     (if completed t then ''Yes'' else ''No'') @ [CHR 0x0A]"

fun replace_first :: "task \<Rightarrow> string list \<Rightarrow> string list" where
  "replace_first t [] = []"
| "replace_first t (line # rest) =
     (case split_on CHR '';'' line of
        [] \<Rightarrow> line # replace_first t rest
      | part0 # _ \<Rightarrow>
          if strip part0 = str_int (number t) then updated_line t # rest
          else line # replace_first t rest)"

definition update_tasks_file :: "task \<Rightarrow> world \<Rightarrow> error + world" where
  "update_tasks_file specific_task w =
     (case tasks_txt w of
        None \<Rightarrow> Inl FileNotFoundError
      | Some content \<Rightarrow>
          Inr (w\<lparr>tasks_txt :=
                 Some (concat (replace_first specific_task
                                 (lines_keepends (universal_newlines content))))\<rparr>))"

text \<open>
  The body of the loop of \<open>edit_task_details\<close> for a task whose \<open>task_number\<close> is the one
  selected; \<open>current_date\<close> is the value of \<open>datetime.today()\<close>. The result holds the task as
  the body leaves it, whether the loop is left (\<open>break\<close>, or the \<open>return\<close> of the invalid
  option) and the world.
\<close>

definition edit_selected_task :: "datetime \<Rightarrow> task \<Rightarrow> world \<Rightarrow> error + (task \<times> bool \<times> world)" where
  "edit_selected_task current_date t w =
     (let w1 = print_msg (Out_task_details t) w
      in if (completed t = False) \<and> dt_greater (due_date t) current_date then
           (case input_line (print_msg Out_edit_menu w1) of
              Inl e \<Rightarrow> Inl e
            | Inr (l, w2) \<Rightarrow>
                (let field_to_edit = lower l
                 in if field_to_edit = ''u'' then
                      (case read_users_file w2 of
                         Inl e \<Rightarrow> Inl e
                       | Inr username_password \<Rightarrow>
                      case input_line w2 of
                         Inl e \<Rightarrow> Inl e
                       | Inr (l1, w3) \<Rightarrow>
                      case validate_data_entry l1 w3 of
                         Inl e \<Rightarrow> Inl e
                       | Inr (new_username, w4) \<Rightarrow>
                      case validate_if_username_registered new_username username_password w4 of
                         Inl e \<Rightarrow> Inl e
                       | Inr (_, w5) \<Rightarrow>
                           (let t1 = t\<lparr>username := new_username\<rparr>
                            in case update_tasks_file t1 (print_msg Out_username_updated w5) of
                                 Inl e \<Rightarrow> Inl e
                               | Inr w6 \<Rightarrow> Inr (t1, False, w6)))
                    else if field_to_edit = ''d'' then
                      (case validate_due_date_input w2 of
                         Inl e \<Rightarrow> Inl e
                       | Inr (new_due_date, w3) \<Rightarrow>
                           (let t1 = t\<lparr>due_date := new_due_date\<rparr>
                            in case update_tasks_file t1 (print_msg Out_due_date_updated w3) of
                                 Inl e \<Rightarrow> Inl e
                               | Inr w4 \<Rightarrow> Inr (t1, False, w4)))
                    else if field_to_edit = ''c'' then
                      (case input_line w2 of
                         Inl e \<Rightarrow> Inl e
                       | Inr (l1, w3) \<Rightarrow>
                      case validate_data_entry (lower l1) w3 of
                         Inl e \<Rightarrow> Inl e
                       | Inr (new_completed, w4) \<Rightarrow>
                           if new_completed = ''yes'' then
                             (let t1 = t\<lparr>completed := True\<rparr>
                              in case update_tasks_file t1 (print_msg Out_complete_updated w4) of
                                   Inl e \<Rightarrow> Inl e
                                 | Inr w5 \<Rightarrow> Inr (t1, False, w5))
                           else Inr (t, False, print_msg Out_no_change_made w4))
                    else if field_to_edit = ''e'' then Inr (t, True, w2)
                    else Inr (t, True, print_msg Out_invalid_option w2)))
         else Inr (t, True, print_msg Out_cannot_be_edited w1))"

text \<open>
  The loop over \<open>my_task_list\<close>: the result holds the list with the dicts as the loop has
  changed them, \<open>task_found\<close> and the world. Reading \<open>task['task_number']\<close> of a dict without
  that key raises KeyError.
\<close>

fun edit_tasks :: "datetime \<Rightarrow> int \<Rightarrow> task list \<Rightarrow> world \<Rightarrow> error + (task list \<times> bool \<times> world)" where
  "edit_tasks current_date n [] w = Inr ([], False, w)"
| "edit_tasks current_date n (t # ts) w =
     (case task_number t of
        None \<Rightarrow> Inl (KeyError ''task_number'')
      | Some k \<Rightarrow>
          if k = n then
            (case edit_selected_task current_date t w of
               Inl e \<Rightarrow> Inl e
             | Inr (t1, leave, w1) \<Rightarrow>
                 if leave then Inr (t1 # ts, True, w1)
                 else
                   (case edit_tasks current_date n ts w1 of
                      Inl e \<Rightarrow> Inl e
                    | Inr (ts1, _, w2) \<Rightarrow> Inr (t1 # ts1, True, w2)))
          else
            (case edit_tasks current_date n ts w of
               Inl e \<Rightarrow> Inl e
             | Inr (ts1, task_found, w1) \<Rightarrow> Inr (t # ts1, task_found, w1)))"

definition edit_task_details ::
  "datetime \<Rightarrow> task list \<Rightarrow> string \<Rightarrow> world \<Rightarrow> error + (task list \<times> world)" where
  "edit_task_details current_date my_task_list edit_specific_task w =
     (case py_int edit_specific_task of
        Inl _ \<Rightarrow> Inr (my_task_list, print_msg Out_invalid_task_number w)
      | Inr n \<Rightarrow>
          (case edit_tasks current_date n my_task_list w of
             Inl e \<Rightarrow> Inl e
           | Inr (my_task_list1, task_found, w1) \<Rightarrow>
               Inr (my_task_list1,
                    if \<not> task_found then print_msg Out_invalid_task_number w1 else w1)))"


section \<open>Statistics\<close>

text \<open>
  The inner dict of \<open>user_stats\<close>, with the four keys of the source. \<open>user_stats\<close> itself is
  an association list from usernames, in insertion order.
\<close>

record user_counters =
  total_tasks_assigned :: nat
  total_tasks_completed :: nat
  total_tasks_uncompleted :: nat
  total_tasks_uncompleted_overdue :: nat

definition zero_counters :: user_counters where
  "zero_counters =
     \<lparr>total_tasks_assigned = 0, total_tasks_completed = 0,
      total_tasks_uncompleted = 0, total_tasks_uncompleted_overdue = 0\<rparr>"

text \<open>
  \<open>user_stats[u][key] += 1\<close>: the lookup of \<open>u\<close> raises KeyError when \<open>u\<close> is not a key of
  \<open>user_stats\<close>; \<open>f\<close> is the increment of the field \<open>key\<close>.
\<close>

definition add_one ::
  "(user_counters \<Rightarrow> user_counters) \<Rightarrow> string \<Rightarrow> (string \<times> user_counters) list
     \<Rightarrow> error + (string \<times> user_counters) list" where
  "add_one f u user_stats =
     (case map_of user_stats u of
        None \<Rightarrow> Inl (KeyError u)
      | Some stats \<Rightarrow> Inr (AList.update u (f stats) user_stats))"

definition inc_assigned :: "user_counters \<Rightarrow> user_counters" where
  "inc_assigned c = c\<lparr>total_tasks_assigned := total_tasks_assigned c + 1\<rparr>"

definition inc_completed :: "user_counters \<Rightarrow> user_counters" where
  "inc_completed c = c\<lparr>total_tasks_completed := total_tasks_completed c + 1\<rparr>"

definition inc_uncompleted :: "user_counters \<Rightarrow> user_counters" where
  "inc_uncompleted c = c\<lparr>total_tasks_uncompleted := total_tasks_uncompleted c + 1\<rparr>"

definition inc_uncompleted_overdue :: "user_counters \<Rightarrow> user_counters" where
  "inc_uncompleted_overdue c =
     c\<lparr>total_tasks_uncompleted_overdue := total_tasks_uncompleted_overdue c + 1\<rparr>"

text \<open>
  The value of the conditional expression \<open>(a / b) * 100 if b > 0 else 0\<close>, which both
  statistics functions write out for each percentage: a float, or the int 0.
\<close>

datatype pynum = PyInt nat | PyFloat double

definition percent_expr :: "nat \<Rightarrow> nat \<Rightarrow> error + pynum" where
  "percent_expr a b =
     (if b > 0 then
        (case py_truediv a b of
           Inl e \<Rightarrow> Inl e
         | Inr q \<Rightarrow> Inr (PyFloat (py_float_mul q 100)))
      else Inr (PyInt 0))"

text \<open>\<open>int(x)\<close> inside the f-strings that print a percentage.\<close>

fun int_of_pynum :: "pynum \<Rightarrow> nat" where
  "int_of_pynum (PyInt n) = n"
| "int_of_pynum (PyFloat x) = py_int_of_float x"

text \<open>
  The integer that the reports and the screen show for a percentage of \<open>a\<close> in \<open>b\<close>:
  \<open>int(p)\<close> for the value \<open>p\<close> of the conditional expression.
\<close>

definition percentage :: "nat \<Rightarrow> nat \<Rightarrow> nat" where
  "percentage a b = (case percent_expr a b of Inl _ \<Rightarrow> 0 | Inr p \<Rightarrow> int_of_pynum p)"

text \<open>The local variables of the two statistics functions that the loop over the tasks updates.\<close>

record stats_locals =
  st_task_list :: "task list"
  st_total_tasks_completed :: nat
  st_total_tasks_uncompleted :: nat
  st_total_tasks_uncompleted_overdue :: nat
  st_user_stats :: "(string \<times> user_counters) list"

text \<open>The figures of \<open>task_overview.txt\<close> (and of the "Task Overview" block on the screen).\<close>

record task_overview =
  ov_total_tasks :: nat
  ov_completed :: nat
  ov_uncompleted :: nat
  ov_percentage_uncompleted :: nat
  ov_uncompleted_overdue :: nat
  ov_percentage_overdue :: nat

text \<open>The figures of one user's block in \<open>user_overview.txt\<close> (and on the screen).\<close>

record user_entry =
  ue_username :: string
  ue_total_assigned :: nat
  ue_percentage_assigned :: nat
  ue_total_completed :: nat
  ue_percentage_completed :: nat
  ue_total_uncompleted :: nat
  ue_percentage_uncompleted :: nat
  ue_total_uncompleted_overdue :: nat
  ue_percentage_uncompleted_overdue :: nat

record user_overview =
  uov_total_users :: nat
  uov_total_tasks :: nat
  uov_entries :: "user_entry list"

subsection \<open>\<open>generate_reports_option\<close>\<close>

definition gr_user_stats :: "(string \<times> string) list \<Rightarrow> (string \<times> user_counters) list" where
  "gr_user_stats username_password =
     foldl (\<lambda>user_stats u. AList.update u zero_counters user_stats) [] (map fst username_password)"

definition gr_curr_t :: "nat \<Rightarrow> string list \<Rightarrow> error + task" where
  "gr_curr_t i task_components =
     (case nth_py task_components 1 of Inl e \<Rightarrow> Inl e | Inr c1 \<Rightarrow>
      case nth_py task_components 2 of Inl e \<Rightarrow> Inl e | Inr c2 \<Rightarrow>
      case nth_py task_components 3 of Inl e \<Rightarrow> Inl e | Inr c3 \<Rightarrow>
      case nth_py task_components 4 of Inl e \<Rightarrow> Inl e | Inr c4 \<Rightarrow>
      case strptime c4 of Inl e \<Rightarrow> Inl e | Inr due \<Rightarrow>
      case nth_py task_components 5 of Inl e \<Rightarrow> Inl e | Inr c5 \<Rightarrow>
      case strptime c5 of Inl e \<Rightarrow> Inl e | Inr assigned \<Rightarrow>
      case nth_py task_components 6 of Inl e \<Rightarrow> Inl e | Inr c6 \<Rightarrow>
        Inr \<lparr>number = int i, username = c1, title = c2, description = c3,
             due_date = due, assigned_date = PyDatetime assigned,
             completed = (c6 = ''Yes''), task_number = None\<rparr>)"

definition gr_step :: "datetime \<Rightarrow> nat \<Rightarrow> string list \<Rightarrow> stats_locals \<Rightarrow> error + stats_locals" where
  "gr_step current_date i task_components st =
     (case gr_curr_t i task_components of
        Inl e \<Rightarrow> Inl e
      | Inr curr_t \<Rightarrow>
          (let st1 = st\<lparr>st_task_list := st_task_list st @ [curr_t]\<rparr>
           in case
                (if completed curr_t then
                   (case add_one inc_completed (username curr_t) (st_user_stats st1) of
                      Inl e \<Rightarrow> Inl e
                    | Inr us \<Rightarrow>
                        Inr (st1\<lparr>st_total_tasks_completed := st_total_tasks_completed st1 + 1,
                                 st_user_stats := us\<rparr>))
                 else
                   (case add_one inc_uncompleted (username curr_t) (st_user_stats st1) of
                      Inl e \<Rightarrow> Inl e
                    | Inr us \<Rightarrow>
                        (let st2 = st1\<lparr>st_total_tasks_uncompleted :=
                                          st_total_tasks_uncompleted st1 + 1,
                                        st_user_stats := us\<rparr>
                         in if dt_le (due_date curr_t) current_date then
                              (case add_one inc_uncompleted_overdue (username curr_t) us of
                                 Inl e \<Rightarrow> Inl e
                               | Inr us1 \<Rightarrow>
                                   Inr (st2\<lparr>st_total_tasks_uncompleted_overdue :=
                                              st_total_tasks_uncompleted_overdue st2 + 1,
                                            st_user_stats := us1\<rparr>))
                            else Inr st2)))
              of
                Inl e \<Rightarrow> Inl e
              | Inr st3 \<Rightarrow>
                  (case add_one inc_assigned (username curr_t) (st_user_stats st3) of
                     Inl e \<Rightarrow> Inl e
                   | Inr us \<Rightarrow> Inr (st3\<lparr>st_user_stats := us\<rparr>))))"

fun gr_loop :: "datetime \<Rightarrow> nat \<Rightarrow> string list list \<Rightarrow> stats_locals \<Rightarrow> error + stats_locals" where
  "gr_loop current_date i [] st = Inr st"
| "gr_loop current_date i (task_components # rest) st =
     (case gr_step current_date i task_components st of
        Inl e \<Rightarrow> Inl e
      | Inr st1 \<Rightarrow> gr_loop current_date (Suc i) rest st1)"

definition gr_user_entry :: "nat \<Rightarrow> string \<Rightarrow> user_counters \<Rightarrow> error + user_entry" where
  "gr_user_entry total_tasks u stats =
     (let total_assigned = total_tasks_assigned stats;
          total_completed = total_tasks_completed stats;
          total_uncompleted = total_tasks_uncompleted stats;
          total_uncompleted_overdue = total_tasks_uncompleted_overdue stats
      in case percent_expr total_assigned total_tasks of
           Inl e \<Rightarrow> Inl e | Inr percentage_assigned \<Rightarrow>
         case percent_expr total_completed total_assigned of
           Inl e \<Rightarrow> Inl e | Inr percentage_assigned_completed \<Rightarrow>
         case percent_expr total_uncompleted total_assigned of
           Inl e \<Rightarrow> Inl e | Inr percentage_assigned_uncompleted \<Rightarrow>
         case percent_expr total_uncompleted_overdue total_assigned of
           Inl e \<Rightarrow> Inl e | Inr percentage_assigned_uncompleted_overdue \<Rightarrow>
             Inr \<lparr>ue_username = u,
                  ue_total_assigned = total_assigned,
                  ue_percentage_assigned = int_of_pynum percentage_assigned,
                  ue_total_completed = total_completed,
                  ue_percentage_completed = int_of_pynum percentage_assigned_completed,
                  ue_total_uncompleted = total_uncompleted,
                  ue_percentage_uncompleted = int_of_pynum percentage_assigned_uncompleted,
                  ue_total_uncompleted_overdue = total_uncompleted_overdue,
                  ue_percentage_uncompleted_overdue =
                    int_of_pynum percentage_assigned_uncompleted_overdue\<rparr>)"

fun gr_user_entries :: "nat \<Rightarrow> (string \<times> user_counters) list \<Rightarrow> error + user_entry list" where
  "gr_user_entries total_tasks [] = Inr []"
| "gr_user_entries total_tasks ((u, stats) # rest) =
     (case gr_user_entry total_tasks u stats of
        Inl e \<Rightarrow> Inl e
      | Inr entry \<Rightarrow>
          (case gr_user_entries total_tasks rest of
             Inl e \<Rightarrow> Inl e
           | Inr entries \<Rightarrow> Inr (entry # entries)))"

text \<open>
  The computation of \<open>generate_reports_option\<close> from the dict of users, the task data and
  the current date, up to the figures written to the two report files.
\<close>

definition generate_reports_figures ::
  "datetime \<Rightarrow> (string \<times> string) list \<Rightarrow> string list list \<Rightarrow> error + (task_overview \<times> user_overview)" where
  "generate_reports_figures current_date username_password task_data =
     (case gr_loop current_date 1 task_data
             \<lparr>st_task_list = [], st_total_tasks_completed = 0, st_total_tasks_uncompleted = 0,
              st_total_tasks_uncompleted_overdue = 0,
              st_user_stats = gr_user_stats username_password\<rparr> of
        Inl e \<Rightarrow> Inl e
      | Inr st \<Rightarrow>
          (let total_tasks = length (st_task_list st)
           in case percent_expr (st_total_tasks_uncompleted st) total_tasks of
                Inl e \<Rightarrow> Inl e | Inr percentage_tasks_uncompleted \<Rightarrow>
              case percent_expr (st_total_tasks_uncompleted_overdue st) total_tasks of
                Inl e \<Rightarrow> Inl e | Inr percentage_tasks_overdue \<Rightarrow>
              case gr_user_entries total_tasks (st_user_stats st) of
                Inl e \<Rightarrow> Inl e | Inr entries \<Rightarrow>
                  Inr (\<lparr>ov_total_tasks = total_tasks,
                        ov_completed = st_total_tasks_completed st,
                        ov_uncompleted = st_total_tasks_uncompleted st,
                        ov_percentage_uncompleted = int_of_pynum percentage_tasks_uncompleted,
                        ov_uncompleted_overdue = st_total_tasks_uncompleted_overdue st,
                        ov_percentage_overdue = int_of_pynum percentage_tasks_overdue\<rparr>,
                       \<lparr>uov_total_users = length username_password,
                        uov_total_tasks = total_tasks,
                        uov_entries = entries\<rparr>)))"

definition generate_reports_option ::
  "datetime \<Rightarrow> world \<Rightarrow> error + (task_overview \<times> user_overview \<times> world)" where
  "generate_reports_option current_date w =
     (let w1 = create_user_file_if_not_found w
      in case create_user_pass_dictionary w1 of
           Inl e \<Rightarrow> Inl e
         | Inr username_password \<Rightarrow>
             (let (task_data, w2) = read_tasks_file w1
              in case generate_reports_figures current_date username_password task_data of
                   Inl e \<Rightarrow> Inl e
                 | Inr (task_file, user_file) \<Rightarrow> Inr (task_file, user_file, w2)))"

subsection \<open>\<open>display_stats_option\<close>\<close>

definition ds_user_stats :: "(string \<times> string) list \<Rightarrow> (string \<times> user_counters) list" where
  "ds_user_stats username_password =
     foldl (\<lambda>user_stats u. AList.update u zero_counters user_stats) [] (map fst username_password)"

definition ds_curr_t :: "nat \<Rightarrow> string list \<Rightarrow> error + task" where
  "ds_curr_t i task_components =
     (case nth_py task_components 1 of Inl e \<Rightarrow> Inl e | Inr c1 \<Rightarrow>
      case nth_py task_components 2 of Inl e \<Rightarrow> Inl e | Inr c2 \<Rightarrow>
      case nth_py task_components 3 of Inl e \<Rightarrow> Inl e | Inr c3 \<Rightarrow>
      case nth_py task_components 4 of Inl e \<Rightarrow> Inl e | Inr c4 \<Rightarrow>
      case strptime c4 of Inl e \<Rightarrow> Inl e | Inr due \<Rightarrow>
      case nth_py task_components 5 of Inl e \<Rightarrow> Inl e | Inr c5 \<Rightarrow>
      case strptime c5 of Inl e \<Rightarrow> Inl e | Inr assigned \<Rightarrow>
      case nth_py task_components 6 of Inl e \<Rightarrow> Inl e | Inr c6 \<Rightarrow>
        Inr \<lparr>number = int i, username = c1, title = c2, description = c3,
             due_date = due, assigned_date = PyDatetime assigned,
             completed = (c6 = ''Yes''), task_number = None\<rparr>)"

definition ds_step :: "datetime \<Rightarrow> nat \<Rightarrow> string list \<Rightarrow> stats_locals \<Rightarrow> error + stats_locals" where
  "ds_step current_date i task_components st =
     (case ds_curr_t i task_components of
        Inl e \<Rightarrow> Inl e
      | Inr curr_t \<Rightarrow>
          (let st1 = st\<lparr>st_task_list := st_task_list st @ [curr_t]\<rparr>
           in case
                (if completed curr_t then
                   (case add_one inc_completed (username curr_t) (st_user_stats st1) of
                      Inl e \<Rightarrow> Inl e
                    | Inr us \<Rightarrow>
                        Inr (st1\<lparr>st_total_tasks_completed := st_total_tasks_completed st1 + 1,
                                 st_user_stats := us\<rparr>))
                 else
                   (case add_one inc_uncompleted (username curr_t) (st_user_stats st1) of
                      Inl e \<Rightarrow> Inl e
                    | Inr us \<Rightarrow>
                        (let st2 = st1\<lparr>st_total_tasks_uncompleted :=
                                          st_total_tasks_uncompleted st1 + 1,
                                        st_user_stats := us\<rparr>
                         in if dt_le (due_date curr_t) current_date then
                              (case add_one inc_uncompleted_overdue (username curr_t) us of
                                 Inl e \<Rightarrow> Inl e
                               | Inr us1 \<Rightarrow>
                                   Inr (st2\<lparr>st_total_tasks_uncompleted_overdue :=
                                              st_total_tasks_uncompleted_overdue st2 + 1,
                                            st_user_stats := us1\<rparr>))
                            else Inr st2)))
              of
                Inl e \<Rightarrow> Inl e
              | Inr st3 \<Rightarrow>
                  (case add_one inc_assigned (username curr_t) (st_user_stats st3) of
                     Inl e \<Rightarrow> Inl e
                   | Inr us \<Rightarrow> Inr (st3\<lparr>st_user_stats := us\<rparr>))))"

fun ds_loop :: "datetime \<Rightarrow> nat \<Rightarrow> string list list \<Rightarrow> stats_locals \<Rightarrow> error + stats_locals" where
  "ds_loop current_date i [] st = Inr st"
| "ds_loop current_date i (task_components # rest) st =
     (case ds_step current_date i task_components st of
        Inl e \<Rightarrow> Inl e
      | Inr st1 \<Rightarrow> ds_loop current_date (Suc i) rest st1)"

definition ds_user_entry :: "nat \<Rightarrow> string \<Rightarrow> user_counters \<Rightarrow> error + user_entry" where
  "ds_user_entry total_tasks u stats =
     (let total_assigned = total_tasks_assigned stats;
          total_completed = total_tasks_completed stats;
          total_uncompleted = total_tasks_uncompleted stats;
          total_uncompleted_overdue = total_tasks_uncompleted_overdue stats
      in case percent_expr total_assigned total_tasks of
           Inl e \<Rightarrow> Inl e | Inr percentage_assigned \<Rightarrow>
         case percent_expr total_completed total_assigned of
           Inl e \<Rightarrow> Inl e | Inr percentage_assigned_completed \<Rightarrow>
         case percent_expr total_uncompleted total_assigned of
           Inl e \<Rightarrow> Inl e | Inr percentage_assigned_uncompleted \<Rightarrow>
         case percent_expr total_uncompleted_overdue total_assigned of
           Inl e \<Rightarrow> Inl e | Inr percentage_assigned_uncompleted_overdue \<Rightarrow>
             Inr \<lparr>ue_username = u,
                  ue_total_assigned = total_assigned,
                  ue_percentage_assigned = int_of_pynum percentage_assigned,
                  ue_total_completed = total_completed,
                  ue_percentage_completed = int_of_pynum percentage_assigned_completed,
                  ue_total_uncompleted = total_uncompleted,
                  ue_percentage_uncompleted = int_of_pynum percentage_assigned_uncompleted,
                  ue_total_uncompleted_overdue = total_uncompleted_overdue,
                  ue_percentage_uncompleted_overdue =
                    int_of_pynum percentage_assigned_uncompleted_overdue\<rparr>)"

fun ds_user_entries :: "nat \<Rightarrow> (string \<times> user_counters) list \<Rightarrow> error + user_entry list" where
  "ds_user_entries total_tasks [] = Inr []"
| "ds_user_entries total_tasks ((u, stats) # rest) =
     (case ds_user_entry total_tasks u stats of
        Inl e \<Rightarrow> Inl e
      | Inr entry \<Rightarrow>
          (case ds_user_entries total_tasks rest of
             Inl e \<Rightarrow> Inl e
           | Inr entries \<Rightarrow> Inr (entry # entries)))"

text \<open>
  The computation of \<open>display_stats_option\<close> from the dict of users, the task data and the
  current date, up to the figures printed on the screen.
\<close>

definition display_stats_figures ::
  "datetime \<Rightarrow> (string \<times> string) list \<Rightarrow> string list list \<Rightarrow> error + (task_overview \<times> user_overview)" where
  "display_stats_figures current_date username_password task_data =
     (case ds_loop current_date 1 task_data
             \<lparr>st_task_list = [], st_total_tasks_completed = 0, st_total_tasks_uncompleted = 0,
              st_total_tasks_uncompleted_overdue = 0,
              st_user_stats = ds_user_stats username_password\<rparr> of
        Inl e \<Rightarrow> Inl e
      | Inr st \<Rightarrow>
          (let total_tasks = length (st_task_list st)
           in case percent_expr (st_total_tasks_uncompleted st) total_tasks of
                Inl e \<Rightarrow> Inl e | Inr percentage_tasks_uncompleted \<Rightarrow>
              case percent_expr (st_total_tasks_uncompleted_overdue st) total_tasks of
                Inl e \<Rightarrow> Inl e | Inr percentage_tasks_overdue \<Rightarrow>
              case ds_user_entries total_tasks (st_user_stats st) of
                Inl e \<Rightarrow> Inl e | Inr entries \<Rightarrow>
                  Inr (\<lparr>ov_total_tasks = total_tasks,
                        ov_completed = st_total_tasks_completed st,
                        ov_uncompleted = st_total_tasks_uncompleted st,
                        ov_percentage_uncompleted = int_of_pynum percentage_tasks_uncompleted,
                        ov_uncompleted_overdue = st_total_tasks_uncompleted_overdue st,
                        ov_percentage_overdue = int_of_pynum percentage_tasks_overdue\<rparr>,
                       \<lparr>uov_total_users = length username_password,
                        uov_total_tasks = total_tasks,
                        uov_entries = entries\<rparr>)))"

definition display_stats_option ::
  "datetime \<Rightarrow> world \<Rightarrow> error + (task_overview \<times> user_overview \<times> world)" where
  "display_stats_option current_date w =
     (let w1 = create_user_file_if_not_found w
      in case create_user_pass_dictionary w1 of
           Inl e \<Rightarrow> Inl e
         | Inr username_password \<Rightarrow>
             (let (task_data, w2) = read_tasks_file w1
              in case display_stats_figures current_date username_password task_data of
                   Inl e \<Rightarrow> Inl e
                 | Inr (task_figures, user_figures) \<Rightarrow> Inr (task_figures, user_figures, w2)))"

section \<open>Example inputs\<close>

text \<open>The current date of the examples: 4 November 2026, half past ten.\<close>

definition example_now :: datetime where
  "example_now = \<lparr>year = 2026, month = 11, day = 4, hour = 10, minute = 30, second = 0, microsecond = 0\<rparr>"

text \<open>
  A world with two users and three tasks: one completed, one open and due in the future,
  one not completed and overdue.
\<close>

definition example_world :: world where
  "example_world =
     \<lparr>user_txt = Some (''admin;password'' @ [CHR 0x0A] @ ''alice;secret''),
      tasks_txt = Some
        (''1;admin;Fix bug;desc;31-12-2099;01-01-2024;Yes'' @ [CHR 0x0A] @
         ''2;alice;Write docs;text;31-12-2099;01-01-2024;No'' @ [CHR 0x0A] @
         ''3;alice;Test;all;01-01-2020;01-01-2019;No'' @ [CHR 0x0A]),
      stdin = [], stdout = []\<rparr>"

definition example_users :: "(string \<times> string) list" where
  "example_users = [(''admin'', ''password''), (''alice'', ''secret'')]"

definition example_task_data :: "string list list" where
  "example_task_data =
     [[''1'', ''admin'', ''Fix bug'', ''desc'', ''31-12-2099'', ''01-01-2024'', ''Yes''],
      [''2'', ''alice'', ''Write docs'', ''text'', ''31-12-2099'', ''01-01-2024'', ''No''],
      [''3'', ''alice'', ''Test'', ''all'', ''01-01-2020'', ''01-01-2019'', ''No'']]"

definition example_tasks :: "task list" where
  "example_tasks =
     [\<lparr>number = 1, username = ''admin'', title = ''Fix bug'', description = ''desc'',
       due_date = \<lparr>year = 2099, month = 12, day = 31, hour = 0, minute = 0, second = 0, microsecond = 0\<rparr>,
       assigned_date = PyDatetime
         \<lparr>year = 2024, month = 1, day = 1, hour = 0, minute = 0, second = 0, microsecond = 0\<rparr>,
       completed = True, task_number = None\<rparr>,
      \<lparr>number = 2, username = ''alice'', title = ''Write docs'', description = ''text'',
       due_date = \<lparr>year = 2099, month = 12, day = 31, hour = 0, minute = 0, second = 0, microsecond = 0\<rparr>,
       assigned_date = PyDatetime
         \<lparr>year = 2024, month = 1, day = 1, hour = 0, minute = 0, second = 0, microsecond = 0\<rparr>,
       completed = False, task_number = None\<rparr>,
      \<lparr>number = 3, username = ''alice'', title = ''Test'', description = ''all'',
       due_date = \<lparr>year = 2020, month = 1, day = 1, hour = 0, minute = 0, second = 0, microsecond = 0\<rparr>,
       assigned_date = PyDatetime
         \<lparr>year = 2019, month = 1, day = 1, hour = 0, minute = 0, second = 0, microsecond = 0\<rparr>,
       completed = False, task_number = None\<rparr>]"

text \<open>The tasks of alice and of admin as \<open>view_my_tasks_option\<close> returns them.\<close>

definition example_tasks_of :: "string \<Rightarrow> task list" where
  "example_tasks_of curr_user =
     map (\<lambda>t. t\<lparr>task_number := Some (number t)\<rparr>)
       (filter (\<lambda>t. username t = curr_user) example_tasks)"

text \<open>
  Fifty tasks, the first twenty-nine of them not completed (copies of the second example
  task), the others completed (copies of the first), and the world after
  \<open>write_new_task_to_tasks_file\<close> has written them.
\<close>

definition fifty_tasks :: "task list" where
  "fifty_tasks = replicate 29 (example_tasks ! 1) @ replicate 21 (example_tasks ! 0)"

definition fifty_world :: world where
  "fifty_world = fst (write_new_task_to_tasks_file fifty_tasks example_world)"

section \<open>Writing the tasks and loading them again\<close>

text \<open>
  Loading the tasks as \<open>main\<close> and \<open>view_my_tasks_option\<close> do it: \<open>read_tasks_file\<close>, then
  \<open>create_task_list\<close>.
\<close>

definition reload :: "world \<Rightarrow> error + task list" where
  "reload w = create_task_list (fst (read_tasks_file w))"

text \<open>
  A text field that the file format can hold: it contains no semicolon (the delimiter, which
  is not escaped) and no line break.
\<close>

definition clean_field :: "string \<Rightarrow> bool" where
  "clean_field s = list_all (\<lambda>c. c \<noteq> CHR '';'' \<and> c \<noteq> CHR 0x0A \<and> c \<noteq> CHR 0x0D) s"

text \<open>A calendar day of a year with four digits.\<close>

definition storable_ymd :: "nat \<Rightarrow> nat \<Rightarrow> nat \<Rightarrow> bool" where
  "storable_ymd y m d = (valid_ymd y m d \<and> 1000 \<le> y)"

fun pydate_ymd :: "pydate \<Rightarrow> nat \<times> nat \<times> nat" where
  "pydate_ymd (PyDate y m d) = (y, m, d)"
| "pydate_ymd (PyDatetime t) = (year t, month t, day t)"

definition storable :: "task \<Rightarrow> bool" where
  "storable t =
     (clean_field (username t) \<and> clean_field (title t) \<and> clean_field (description t)
      \<and> storable_ymd (year (due_date t)) (month (due_date t)) (day (due_date t))
      \<and> (case pydate_ymd (assigned_date t) of (y, m, d) \<Rightarrow> storable_ymd y m d))"

text \<open>The datetime at midnight of a day: what \<open>strptime\<close> returns for the format of the program.\<close>

definition midnight :: "nat \<Rightarrow> nat \<Rightarrow> nat \<Rightarrow> datetime" where
  "midnight y m d =
     \<lparr>year = y, month = m, day = d, hour = 0, minute = 0, second = 0, microsecond = 0\<rparr>"

text \<open>
  The record that stands at position \<open>i\<close> after writing task \<open>t\<close> there and loading the file:
  the number is the position, both dates are datetimes at midnight of the same day, and the
  key \<open>task_number\<close> is absent.
\<close>

definition reloaded :: "nat \<Rightarrow> task \<Rightarrow> task" where
  "reloaded i t =
     \<lparr>number = int i, username = username t, title = title t, description = description t,
      due_date = midnight (year (due_date t)) (month (due_date t)) (day (due_date t)),
      assigned_date =
        PyDatetime (case pydate_ymd (assigned_date t) of (y, m, d) \<Rightarrow> midnight y m d),
      completed = completed t, task_number = None\<rparr>"

fun reloaded_from :: "nat \<Rightarrow> task list \<Rightarrow> task list" where
  "reloaded_from i [] = []"
| "reloaded_from i (t # ts) = reloaded i t # reloaded_from (Suc i) ts"

text \<open>The seven fields of the line that \<open>write_new_task_to_tasks_file\<close> writes for a task.\<close>

definition task_fields :: "nat \<Rightarrow> task \<Rightarrow> string list" where
  "task_fields i t =
     [str_nat i, username t, title t, description t,
      strftime (due_date t), strftime_pydate (assigned_date t),
      (if completed t then ''Yes'' else ''No'')]"

fun task_fields_from :: "nat \<Rightarrow> task list \<Rightarrow> string list list" where
  "task_fields_from i [] = []"
| "task_fields_from i (t # ts) = task_fields i t # task_fields_from (Suc i) ts"

text \<open>A task whose title contains the delimiter.\<close>

definition semicolon_task :: task where
  "semicolon_task =
     \<lparr>number = 1, username = ''admin'', title = ''Fix; test'', description = ''desc'',
      due_date = \<lparr>year = 2099, month = 12, day = 31, hour = 0, minute = 0, second = 0, microsecond = 0\<rparr>,
      assigned_date = PyDatetime
        \<lparr>year = 2024, month = 1, day = 1, hour = 0, minute = 0, second = 0, microsecond = 0\<rparr>,
      completed = False, task_number = None\<rparr>"

text \<open>
  The task list after \<open>add_new_task_to_task_list\<close> has added one task in this session: its
  assigned date is the \<open>date\<close> object of \<open>date.today()\<close>.
\<close>

definition session_tasks :: "task list" where
  "session_tasks =
     add_new_task_to_task_list [] ''admin'' ''Fix bug'' ''desc''
       \<lparr>year = 2099, month = 12, day = 31, hour = 0, minute = 0, second = 0, microsecond = 0\<rparr>
       (PyDate 2026 11 4)"

section \<open>The counters of the statistics\<close>

text \<open>
  What one task adds to the counters of its user, and the counters of a user over a list
  of tasks: the tasks assigned to the user, those completed, those not completed, and
  those not completed and due on or before the current date.
\<close>

definition tally :: "datetime \<Rightarrow> task \<Rightarrow> user_counters \<Rightarrow> user_counters" where
  "tally current_date t c =
     \<lparr>total_tasks_assigned = total_tasks_assigned c + 1,
      total_tasks_completed = total_tasks_completed c + (if completed t then 1 else 0),
      total_tasks_uncompleted = total_tasks_uncompleted c + (if completed t then 0 else 1),
      total_tasks_uncompleted_overdue =
        total_tasks_uncompleted_overdue c
          + (if \<not> completed t \<and> dt_le (due_date t) current_date then 1 else 0)\<rparr>"

definition user_counts :: "datetime \<Rightarrow> string \<Rightarrow> task list \<Rightarrow> user_counters" where
  "user_counts current_date u tasks =
     \<lparr>total_tasks_assigned = length (filter (\<lambda>t. username t = u) tasks),
      total_tasks_completed = length (filter (\<lambda>t. username t = u \<and> completed t) tasks),
      total_tasks_uncompleted = length (filter (\<lambda>t. username t = u \<and> \<not> completed t) tasks),
      total_tasks_uncompleted_overdue =
        length (filter (\<lambda>t. username t = u \<and> \<not> completed t \<and> dt_le (due_date t) current_date)
                  tasks)\<rparr>"

text \<open>The sum of two sets of counters, field by field.\<close>

definition add_counters :: "user_counters \<Rightarrow> user_counters \<Rightarrow> user_counters" where
  "add_counters a b =
     \<lparr>total_tasks_assigned = total_tasks_assigned a + total_tasks_assigned b,
      total_tasks_completed = total_tasks_completed a + total_tasks_completed b,
      total_tasks_uncompleted = total_tasks_uncompleted a + total_tasks_uncompleted b,
      total_tasks_uncompleted_overdue =
        total_tasks_uncompleted_overdue a + total_tasks_uncompleted_overdue b\<rparr>"

text \<open>The local variables of the statistics functions when the loop over the tasks starts.\<close>

definition stats_start :: "(string \<times> string) list \<Rightarrow> stats_locals" where
  "stats_start username_password =
     \<lparr>st_task_list = [], st_total_tasks_completed = 0, st_total_tasks_uncompleted = 0,
      st_total_tasks_uncompleted_overdue = 0,
      st_user_stats = gr_user_stats username_password\<rparr>"

text \<open>
  The block of figures of one user, as both statistics functions compute it from the
  user's counters and the number of all tasks.
\<close>

definition user_entry_of :: "nat \<Rightarrow> string \<times> user_counters \<Rightarrow> user_entry" where
  "user_entry_of total_tasks p =
     \<lparr>ue_username = fst p,
      ue_total_assigned = total_tasks_assigned (snd p),
      ue_percentage_assigned = percentage (total_tasks_assigned (snd p)) total_tasks,
      ue_total_completed = total_tasks_completed (snd p),
      ue_percentage_completed =
        percentage (total_tasks_completed (snd p)) (total_tasks_assigned (snd p)),
      ue_total_uncompleted = total_tasks_uncompleted (snd p),
      ue_percentage_uncompleted =
        percentage (total_tasks_uncompleted (snd p)) (total_tasks_assigned (snd p)),
      ue_total_uncompleted_overdue = total_tasks_uncompleted_overdue (snd p),
      ue_percentage_uncompleted_overdue =
        percentage (total_tasks_uncompleted_overdue (snd p)) (total_tasks_assigned (snd p))\<rparr>"

section \<open>Properties of the statistics\<close>

subsection \<open>The two statistics functions are the same computation\<close>

lemma ds_curr_t_eq: "ds_curr_t = gr_curr_t"
  by (rule ext)+ (simp add: ds_curr_t_def gr_curr_t_def)

lemma ds_step_eq: "ds_step = gr_step"
  by (rule ext)+ (simp add: ds_step_def gr_step_def ds_curr_t_eq)

lemma ds_loop_eq_aux: "ds_loop d i td st = gr_loop d i td st"
  by (induction td arbitrary: i st) (simp_all add: ds_step_eq split: sum.splits)

lemma ds_loop_eq: "ds_loop = gr_loop"
  by (rule ext)+ (rule ds_loop_eq_aux)

lemma ds_user_entry_eq: "ds_user_entry = gr_user_entry"
  by (rule ext)+ (simp add: ds_user_entry_def gr_user_entry_def)

lemma ds_user_entries_eq_aux: "ds_user_entries n us = gr_user_entries n us"
  by (induction n us rule: gr_user_entries.induct) (simp_all add: ds_user_entry_eq split: sum.splits)

lemma ds_user_entries_eq: "ds_user_entries = gr_user_entries"
  by (rule ext)+ (rule ds_user_entries_eq_aux)

lemma ds_user_stats_eq: "ds_user_stats = gr_user_stats"
  by (rule ext) (simp add: ds_user_stats_def gr_user_stats_def)

lemma display_stats_figures_eq: "display_stats_figures = generate_reports_figures"
  unfolding display_stats_figures_def generate_reports_figures_def
    ds_loop_eq ds_user_entries_eq ds_user_stats_eq
  by (rule refl)

lemma display_stats_option_eq: "display_stats_option = generate_reports_option"
  unfolding display_stats_option_def generate_reports_option_def display_stats_figures_eq
  by (rule refl)

text \<open>
  C4: the statistics computed for the screen (\<open>display_stats_option\<close>) and those computed
  for the report files (\<open>generate_reports_option\<close>) are the same for every dict of users,
  all task data and every current date: all global and per-user counts and percentages
  are equal, and so are the outcomes when the computation raises.
\<close>

theorem display_and_report_figures_agree:
  "display_stats_figures current_date username_password task_data =
     generate_reports_figures current_date username_password task_data
   \<and> display_stats_option current_date w = generate_reports_option current_date w"
  by (simp add: display_stats_figures_eq display_stats_option_eq)

subsection \<open>One step and the whole loop over the tasks\<close>

lemma gr_curr_t_eq: "gr_curr_t i c = create_task_list_item i c"
  by (simp add: gr_curr_t_def create_task_list_item_def split: sum.splits)

lemma add_one_Inr:
  assumes "add_one f u us = Inr us'"
  shows "u \<in> fst ` set us \<and> map fst us' = map fst us"
proof -
  from assms obtain c where c: "map_of us u = Some c" and e: "us' = AList.update u (f c) us"
    by (auto simp: add_one_def split: option.splits)
  from c have "(u, c) \<in> set us" by (rule map_of_SomeD)
  then have "u \<in> fst ` set us" by force
  with e show ?thesis by (simp add: update_keys)
qed

lemma add_one_known:
  "u \<in> fst ` set us \<Longrightarrow> \<exists>us'. add_one f u us = Inr us'"
  by (auto simp: add_one_def map_of_eq_None_iff split: option.splits)

lemma add_one_unknown:
  "u \<notin> fst ` set us \<Longrightarrow> add_one f u us = Inl (KeyError u)"
  by (auto simp: add_one_def map_of_eq_None_iff split: option.splits)

lemma gr_step_item_error:
  "create_task_list_item i c = Inl e \<Longrightarrow> gr_step d i c st = Inl e"
  by (simp add: gr_step_def gr_curr_t_eq)

lemma gr_step_unknown:
  "create_task_list_item i c = Inr t \<Longrightarrow> username t \<notin> fst ` set (st_user_stats st)
   \<Longrightarrow> gr_step d i c st = Inl (KeyError (username t))"
  by (simp add: gr_step_def gr_curr_t_eq add_one_unknown Let_def)

lemma gr_step_Inr:
  assumes "gr_step d i c st = Inr st'"
  shows "\<exists>t. create_task_list_item i c = Inr t
     \<and> username t \<in> fst ` set (st_user_stats st)
     \<and> st_task_list st' = st_task_list st @ [t]
     \<and> st_total_tasks_completed st' = st_total_tasks_completed st + (if completed t then 1 else 0)
     \<and> st_total_tasks_uncompleted st' = st_total_tasks_uncompleted st + (if completed t then 0 else 1)
     \<and> st_total_tasks_uncompleted_overdue st' =
         st_total_tasks_uncompleted_overdue st + (if \<not> completed t \<and> dt_le (due_date t) d then 1 else 0)
     \<and> map fst (st_user_stats st') = map fst (st_user_stats st)"
proof (cases "create_task_list_item i c")
  case (Inl e)
  with assms show ?thesis by (simp add: gr_step_item_error)
next
  case (Inr t)
  show ?thesis
  proof (cases "username t \<in> fst ` set (st_user_stats st)")
    case False
    with Inr assms show ?thesis by (simp add: gr_step_unknown)
  next
    case True
    with Inr assms show ?thesis
      by (auto simp: gr_step_def gr_curr_t_eq Let_def split: sum.splits if_splits dest!: add_one_Inr)
  qed
qed

lemma gr_step_known:
  assumes "create_task_list_item i c = Inr t" "username t \<in> fst ` set (st_user_stats st)"
  shows "\<exists>st'. gr_step d i c st = Inr st'"
proof -
  have k: "\<And>f us. fst ` set us = fst ` set (st_user_stats st) \<Longrightarrow> \<exists>us'. add_one f (username t) us = Inr us' \<and> fst ` set us' = fst ` set (st_user_stats st)"
  proof -
    fix f and us :: "(string \<times> user_counters) list"
    assume a: "fst ` set us = fst ` set (st_user_stats st)"
    with assms(2) obtain us' where u: "add_one f (username t) us = Inr us'"
      using add_one_known [of "username t" us f] by auto
    from add_one_Inr [OF u] have "set (map fst us') = set (map fst us)" by simp
    with a u show "\<exists>us'. add_one f (username t) us = Inr us' \<and> fst ` set us' = fst ` set (st_user_stats st)"
      by auto
  qed
  obtain u1 where u1: "add_one inc_completed (username t) (st_user_stats st) = Inr u1" "fst ` set u1 = fst ` set (st_user_stats st)"
    using k [of "st_user_stats st" inc_completed] by auto
  obtain u2 where u2: "add_one inc_uncompleted (username t) (st_user_stats st) = Inr u2" "fst ` set u2 = fst ` set (st_user_stats st)"
    using k [of "st_user_stats st" inc_uncompleted] by auto
  obtain u3 where u3: "add_one inc_uncompleted_overdue (username t) u2 = Inr u3" "fst ` set u3 = fst ` set (st_user_stats st)"
    using k [OF u2(2), of inc_uncompleted_overdue] by auto
  obtain u4 where u4: "add_one inc_assigned (username t) u1 = Inr u4"
    using k [OF u1(2), of inc_assigned] by auto
  obtain u5 where u5: "add_one inc_assigned (username t) u2 = Inr u5"
    using k [OF u2(2), of inc_assigned] by auto
  obtain u6 where u6: "add_one inc_assigned (username t) u3 = Inr u6"
    using k [OF u3(2), of inc_assigned] by auto
  show ?thesis
    using assms(1) u1 u2 u3 u4 u5 u6
    by (simp add: gr_step_def gr_curr_t_eq Let_def)
qed

lemma item_username: "create_task_list_item i c = Inr t \<Longrightarrow> nth_py c 1 = Inr (username t)"
  by (auto simp: create_task_list_item_def split: sum.splits)

lemma gr_loop_Inr:
  "gr_loop d i td st = Inr st' \<Longrightarrow>
   \<exists>tasks. create_task_list_from i td = Inr tasks
     \<and> (\<forall>t\<in>set tasks. username t \<in> fst ` set (st_user_stats st))
     \<and> st_task_list st' = st_task_list st @ tasks
     \<and> st_total_tasks_completed st' = st_total_tasks_completed st + length (filter completed tasks)
     \<and> st_total_tasks_uncompleted st' =
         st_total_tasks_uncompleted st + length (filter (\<lambda>t. \<not> completed t) tasks)
     \<and> st_total_tasks_uncompleted_overdue st' =
         st_total_tasks_uncompleted_overdue st
           + length (filter (\<lambda>t. \<not> completed t \<and> dt_le (due_date t) d) tasks)
     \<and> map fst (st_user_stats st') = map fst (st_user_stats st)"
proof (induction td arbitrary: i st)
  case Nil
  then show ?case by simp
next
  case (Cons c td)
  from Cons.prems obtain st1 where s1: "gr_step d i c st = Inr st1"
    and l: "gr_loop d (Suc i) td st1 = Inr st'"
    by (auto split: sum.splits)
  from gr_step_Inr [OF s1] obtain t where t: "create_task_list_item i c = Inr t"
    "username t \<in> fst ` set (st_user_stats st)"
    "st_task_list st1 = st_task_list st @ [t]"
    "st_total_tasks_completed st1 = st_total_tasks_completed st + (if completed t then 1 else 0)"
    "st_total_tasks_uncompleted st1 = st_total_tasks_uncompleted st + (if completed t then 0 else 1)"
    "st_total_tasks_uncompleted_overdue st1 =
       st_total_tasks_uncompleted_overdue st + (if \<not> completed t \<and> dt_le (due_date t) d then 1 else 0)"
    "map fst (st_user_stats st1) = map fst (st_user_stats st)"
    by blast
  from Cons.IH [OF l] obtain tasks where tasks: "create_task_list_from (Suc i) td = Inr tasks"
    "\<forall>t\<in>set tasks. username t \<in> fst ` set (st_user_stats st1)"
    "st_task_list st' = st_task_list st1 @ tasks"
    "st_total_tasks_completed st' = st_total_tasks_completed st1 + length (filter completed tasks)"
    "st_total_tasks_uncompleted st' =
         st_total_tasks_uncompleted st1 + length (filter (\<lambda>t. \<not> completed t) tasks)"
    "st_total_tasks_uncompleted_overdue st' =
         st_total_tasks_uncompleted_overdue st1
           + length (filter (\<lambda>t. \<not> completed t \<and> dt_le (due_date t) d) tasks)"
    "map fst (st_user_stats st') = map fst (st_user_stats st1)"
    by blast
  from t(7) have k: "fst ` set (st_user_stats st1) = fst ` set (st_user_stats st)"
    by (metis list.set_map)
  show ?case
  proof (intro exI [of _ "t # tasks"] conjI)
    show "create_task_list_from i (c # td) = Inr (t # tasks)" using t(1) tasks(1) by simp
    show "\<forall>t\<in>set (t # tasks). username t \<in> fst ` set (st_user_stats st)"
      using t(2) tasks(2) k by simp
    show "st_task_list st' = st_task_list st @ t # tasks" using t(3) tasks(3) by simp
    show "st_total_tasks_completed st' = st_total_tasks_completed st + length (filter completed (t # tasks))"
      using t(4) tasks(4) by simp
    show "st_total_tasks_uncompleted st' =
         st_total_tasks_uncompleted st + length (filter (\<lambda>t. \<not> completed t) (t # tasks))"
      using t(5) tasks(5) by simp
    show "st_total_tasks_uncompleted_overdue st' =
         st_total_tasks_uncompleted_overdue st
           + length (filter (\<lambda>t. \<not> completed t \<and> dt_le (due_date t) d) (t # tasks))"
      using t(6) tasks(6) by simp
    show "map fst (st_user_stats st') = map fst (st_user_stats st)" using t(7) tasks(7) by simp
  qed
qed

lemma gr_loop_known:
  "create_task_list_from i td = Inr tasks \<Longrightarrow>
   \<forall>t\<in>set tasks. username t \<in> fst ` set (st_user_stats st) \<Longrightarrow>
   \<exists>st'. gr_loop d i td st = Inr st'"
proof (induction td arbitrary: i st tasks)
  case Nil
  then show ?case by simp
next
  case (Cons c td)
  from Cons.prems(1) obtain t tasks1 where t: "create_task_list_item i c = Inr t"
    and tasks1: "create_task_list_from (Suc i) td = Inr tasks1" and e: "tasks = t # tasks1"
    by (auto split: sum.splits)
  from Cons.prems(2) e have u: "username t \<in> fst ` set (st_user_stats st)" by simp
  from gr_step_known [OF t u] obtain st1 where s1: "gr_step d i c st = Inr st1" by blast
  from gr_step_Inr [OF s1] have "map fst (st_user_stats st1) = map fst (st_user_stats st)" by blast
  then have k: "fst ` set (st_user_stats st1) = fst ` set (st_user_stats st)"
    by (metis list.set_map)
  with Cons.prems(2) e have "\<forall>t\<in>set tasks1. username t \<in> fst ` set (st_user_stats st1)" by simp
  from Cons.IH [OF tasks1 this] s1 show ?case by simp
qed

lemma gr_loop_unknown:
  "create_task_list_from i td = Inr tasks \<Longrightarrow>
   find (\<lambda>t. username t \<notin> fst ` set (st_user_stats st)) tasks = Some t \<Longrightarrow>
   gr_loop d i td st = Inl (KeyError (username t))"
proof (induction td arbitrary: i st tasks)
  case Nil
  then show ?case by simp
next
  case (Cons c td)
  from Cons.prems(1) obtain t1 tasks1 where t: "create_task_list_item i c = Inr t1"
    and tl1: "create_task_list_from (Suc i) td = Inr tasks1" and e: "tasks = t1 # tasks1"
    by (auto split: sum.splits)
  show ?case
  proof (cases "username t1 \<in> fst ` set (st_user_stats st)")
    case False
    with Cons.prems(2) e have "t = t1" by simp
    with gr_step_unknown [OF t False, of d] show ?thesis by simp
  next
    case True
    from gr_step_known [OF t True] obtain st1 where s1: "gr_step d i c st = Inr st1" by blast
    from gr_step_Inr [OF s1] have "map fst (st_user_stats st1) = map fst (st_user_stats st)" by blast
    then have k: "fst ` set (st_user_stats st1) = fst ` set (st_user_stats st)"
      by (metis list.set_map)
    with Cons.prems(2) e True
    have "find (\<lambda>t. username t \<notin> fst ` set (st_user_stats st1)) tasks1 = Some t" by simp
    from Cons.IH [OF tl1 this] s1 show ?thesis by simp
  qed
qed

lemma gr_loop_abort:
  "c \<in> set td \<Longrightarrow> nth_py c 1 = Inr u \<Longrightarrow> u \<notin> fst ` set (st_user_stats st) \<Longrightarrow>
   \<exists>e. gr_loop d i td st = Inl e"
proof (induction td arbitrary: i st)
  case Nil
  then show ?case by simp
next
  case (Cons c' td)
  show ?case
  proof (cases "gr_step d i c' st")
    case (Inl e)
    then show ?thesis by simp
  next
    case (Inr st1)
    from gr_step_Inr [OF Inr] obtain t where t: "create_task_list_item i c' = Inr t"
      "username t \<in> fst ` set (st_user_stats st)"
      "map fst (st_user_stats st1) = map fst (st_user_stats st)" by blast
    from t(3) have k: "fst ` set (st_user_stats st1) = fst ` set (st_user_stats st)"
      by (metis list.set_map)
    have "c \<noteq> c'"
    proof
      assume "c = c'"
      with item_username [OF t(1)] Cons.prems(2) have "u = username t" by simp
      with t(2) Cons.prems(3) show False by simp
    qed
    with Cons.prems(1) have "c \<in> set td" by simp
    from Cons.IH [OF this Cons.prems(2), of st1 "Suc i"] Cons.prems(3) k Inr show ?thesis by simp
  qed
qed

lemma foldl_update_keys:
  "fst ` set (foldl (\<lambda>us u. AList.update u z us) acc ks) = fst ` set acc \<union> set ks"
  by (induction ks arbitrary: acc) (auto simp: dom_update)

lemma gr_user_stats_keys: "fst ` set (gr_user_stats up) = fst ` set up"
  by (simp add: gr_user_stats_def foldl_update_keys)

lemma percent_expr_Inr: "percent_expr a b = Inr p \<Longrightarrow> int_of_pynum p = percentage a b"
  by (simp add: percentage_def)

lemma percent_expr_total: "\<exists>p. percent_expr a b = Inr p"
  by (simp add: percent_expr_def py_truediv_def)

lemma percentage_zero_total: "percentage a 0 = 0"
  by (simp add: percentage_def percent_expr_def)

lemma percentage_zero_count: "percentage 0 b = 0"
  by (simp add: percentage_def percent_expr_def py_truediv_def round_to_double_def
      py_float_mul_def py_int_of_float_def)

lemma gr_user_entry_eq: "gr_user_entry total_tasks u stats = Inr (user_entry_of total_tasks (u, stats))"
proof -
  obtain p1 where p1: "percent_expr (total_tasks_assigned stats) total_tasks = Inr p1"
    using percent_expr_total by blast
  obtain p2 where p2: "percent_expr (total_tasks_completed stats) (total_tasks_assigned stats) = Inr p2"
    using percent_expr_total by blast
  obtain p3 where p3: "percent_expr (total_tasks_uncompleted stats) (total_tasks_assigned stats) = Inr p3"
    using percent_expr_total by blast
  obtain p4 where
    p4: "percent_expr (total_tasks_uncompleted_overdue stats) (total_tasks_assigned stats) = Inr p4"
    using percent_expr_total by blast
  show ?thesis
    by (simp add: gr_user_entry_def user_entry_of_def Let_def p1 p2 p3 p4
        percent_expr_Inr [OF p1] percent_expr_Inr [OF p2] percent_expr_Inr [OF p3]
        percent_expr_Inr [OF p4])
qed

lemma gr_user_entries_eq: "gr_user_entries total_tasks us = Inr (map (user_entry_of total_tasks) us)"
  by (induction total_tasks us rule: gr_user_entries.induct) (simp_all add: gr_user_entry_eq)

lemma strptime_error: "strptime s = Inl e \<Longrightarrow> e = ValueError"
  by (auto simp: strptime_def Let_def split: list.splits if_splits)

lemma nth_py_error: "nth_py xs i = Inl e \<Longrightarrow> e = IndexError"
  by (auto simp: nth_py_def split: if_splits)

lemma item_error:
  "create_task_list_item i c = Inl e \<Longrightarrow> e = ValueError \<or> e = IndexError"
  by (auto simp: create_task_list_item_def split: sum.splits dest: strptime_error nth_py_error)

lemma gr_step_error:
  assumes "gr_step d i c st = Inl e"
  shows "e \<noteq> ZeroDivisionError"
proof (cases "create_task_list_item i c")
  case (Inl e')
  with assms gr_step_item_error [OF Inl, of d st] item_error [OF Inl] show ?thesis by auto
next
  case (Inr t)
  show ?thesis
  proof (cases "username t \<in> fst ` set (st_user_stats st)")
    case True
    from gr_step_known [OF Inr True, of d] assms show ?thesis by auto
  next
    case False
    from gr_step_unknown [OF Inr False, of d] assms show ?thesis by auto
  qed
qed

lemma gr_loop_error: "gr_loop d i td st = Inl e \<Longrightarrow> e \<noteq> ZeroDivisionError"
proof (induction td arbitrary: i st)
  case Nil
  then show ?case by simp
next
  case (Cons c td)
  then show ?case by (auto split: sum.splits dest: gr_step_error)
qed

subsection \<open>The figures\<close>

lemma figures_unfold:
  "generate_reports_figures d up td =
     (case gr_loop d 1 td (stats_start up) of
        Inl e \<Rightarrow> Inl e
      | Inr st \<Rightarrow>
          Inr (\<lparr>ov_total_tasks = length (st_task_list st),
                ov_completed = st_total_tasks_completed st,
                ov_uncompleted = st_total_tasks_uncompleted st,
                ov_percentage_uncompleted =
                  percentage (st_total_tasks_uncompleted st) (length (st_task_list st)),
                ov_uncompleted_overdue = st_total_tasks_uncompleted_overdue st,
                ov_percentage_overdue =
                  percentage (st_total_tasks_uncompleted_overdue st) (length (st_task_list st))\<rparr>,
               \<lparr>uov_total_users = length up,
                uov_total_tasks = length (st_task_list st),
                uov_entries = map (user_entry_of (length (st_task_list st))) (st_user_stats st)\<rparr>))"
proof (cases "gr_loop d 1 td (stats_start up)")
  case (Inl e)
  then show ?thesis by (simp add: generate_reports_figures_def stats_start_def)
next
  case (Inr st)
  obtain p1 where p1: "percent_expr (st_total_tasks_uncompleted st) (length (st_task_list st)) = Inr p1"
    using percent_expr_total by blast
  obtain p2 where p2: "percent_expr (st_total_tasks_uncompleted_overdue st) (length (st_task_list st)) = Inr p2"
    using percent_expr_total by blast
  from Inr show ?thesis
    by (simp add: generate_reports_figures_def stats_start_def [symmetric] Let_def p1 p2 gr_user_entries_eq
        percent_expr_Inr [OF p1] percent_expr_Inr [OF p2])
qed

lemma figures_error: "generate_reports_figures d up td = Inl e \<Longrightarrow> e \<noteq> ZeroDivisionError"
  by (auto simp: figures_unfold split: sum.splits dest: gr_loop_error)

lemma figures_Inr:
  assumes "generate_reports_figures d up td = Inr (ov, uv)"
  shows "\<exists>tasks us. create_task_list td = Inr tasks
     \<and> (\<forall>t\<in>set tasks. username t \<in> fst ` set up)
     \<and> map fst us = map fst (gr_user_stats up)
     \<and> ov = \<lparr>ov_total_tasks = length tasks,
                ov_completed = length (filter completed tasks),
                ov_uncompleted = length (filter (\<lambda>t. \<not> completed t) tasks),
                ov_percentage_uncompleted =
                  percentage (length (filter (\<lambda>t. \<not> completed t) tasks)) (length tasks),
                ov_uncompleted_overdue = length (filter (\<lambda>t. \<not> completed t \<and> dt_le (due_date t) d) tasks),
                ov_percentage_overdue =
                  percentage (length (filter (\<lambda>t. \<not> completed t \<and> dt_le (due_date t) d) tasks)) (length tasks)\<rparr>
     \<and> uv = \<lparr>uov_total_users = length up,
                uov_total_tasks = length tasks,
                uov_entries = map (user_entry_of (length tasks)) us\<rparr>"
proof -
  from assms obtain st where l: "gr_loop d 1 td (stats_start up) = Inr st"
    by (auto simp: figures_unfold split: sum.splits)
  from gr_loop_Inr [OF l] obtain tasks where t:
    "create_task_list_from 1 td = Inr tasks"
    "\<forall>t\<in>set tasks. username t \<in> fst ` set (st_user_stats (stats_start up))"
    "st_task_list st = st_task_list (stats_start up) @ tasks"
    "st_total_tasks_completed st = st_total_tasks_completed (stats_start up) + length (filter completed tasks)"
    "st_total_tasks_uncompleted st =
         st_total_tasks_uncompleted (stats_start up) + length (filter (\<lambda>t. \<not> completed t) tasks)"
    "st_total_tasks_uncompleted_overdue st =
         st_total_tasks_uncompleted_overdue (stats_start up)
           + length (filter (\<lambda>t. \<not> completed t \<and> dt_le (due_date t) d) tasks)"
    "map fst (st_user_stats st) = map fst (st_user_stats (stats_start up))"
    by blast
  show ?thesis
  proof (intro exI [of _ tasks] exI [of _ "st_user_stats st"] conjI)
    show "create_task_list td = Inr tasks" using t(1) by (simp add: create_task_list_def)
    show "\<forall>t\<in>set tasks. username t \<in> fst ` set up"
      using t(2) by (simp add: stats_start_def gr_user_stats_keys)
    show "map fst (st_user_stats st) = map fst (gr_user_stats up)"
      using t(7) by (simp add: stats_start_def)
    show "ov = \<lparr>ov_total_tasks = length tasks,
                ov_completed = length (filter completed tasks),
                ov_uncompleted = length (filter (\<lambda>t. \<not> completed t) tasks),
                ov_percentage_uncompleted =
                  percentage (length (filter (\<lambda>t. \<not> completed t) tasks)) (length tasks),
                ov_uncompleted_overdue = length (filter (\<lambda>t. \<not> completed t \<and> dt_le (due_date t) d) tasks),
                ov_percentage_overdue =
                  percentage (length (filter (\<lambda>t. \<not> completed t \<and> dt_le (due_date t) d) tasks)) (length tasks)\<rparr>"
      using assms l t(3-6) by (simp add: figures_unfold stats_start_def)
    show "uv = \<lparr>uov_total_users = length up,
                uov_total_tasks = length tasks,
                uov_entries = map (user_entry_of (length tasks)) (st_user_stats st)\<rparr>"
      using assms l t(3) by (simp add: figures_unfold stats_start_def)
  qed
qed

lemma figures_known:
  assumes "create_task_list td = Inr tasks" "\<forall>t\<in>set tasks. username t \<in> fst ` set up"
  shows "\<exists>r. generate_reports_figures d up td = Inr r"
proof -
  from assms(2) have "\<forall>t\<in>set tasks. username t \<in> fst ` set (st_user_stats (stats_start up))"
    by (simp add: stats_start_def gr_user_stats_keys)
  from gr_loop_known [OF assms(1) [unfolded create_task_list_def] this, of d]
  obtain st where "gr_loop d 1 td (stats_start up) = Inr st" by blast
  then show ?thesis by (simp add: figures_unfold)
qed

lemma figures_unknown:
  assumes "create_task_list td = Inr tasks"
    "find (\<lambda>t. username t \<notin> fst ` set up) tasks = Some t"
  shows "generate_reports_figures d up td = Inl (KeyError (username t))"
proof -
  from assms(2) have "find (\<lambda>t. username t \<notin> fst ` set (st_user_stats (stats_start up))) tasks = Some t"
    by (simp add: stats_start_def gr_user_stats_keys)
  from gr_loop_unknown [OF assms(1) [unfolded create_task_list_def] this, of d]
  show ?thesis by (simp add: figures_unfold)
qed

lemma figures_abort:
  assumes "c \<in> set td" "nth_py c 1 = Inr u" "u \<notin> fst ` set up"
  shows "\<exists>e. generate_reports_figures d up td = Inl e"
proof -
  from assms(3) have "u \<notin> fst ` set (st_user_stats (stats_start up))"
    by (simp add: stats_start_def gr_user_stats_keys)
  from gr_loop_abort [OF assms(1,2) this, of d 1]
  obtain e where "gr_loop d 1 td (stats_start up) = Inl e" by blast
  then show ?thesis by (simp add: figures_unfold)
qed


subsection \<open>The example inputs, evaluated\<close>

lemma example_create_task_list: "create_task_list example_task_data = Inr example_tasks"
  by code_simp

lemma example_read_tasks_file: "fst (read_tasks_file example_world) = example_task_data"
  by code_simp

lemma example_read_users_file: "read_users_file example_world = Inr example_users"
  by code_simp

subsection \<open>Global counts\<close>

text \<open>
  C5: when the statistics are computed (for the reports or for the screen), the total is
  the number of tasks, \<open>completed\<close> counts the tasks with \<open>completed == True\<close>, \<open>uncompleted\<close>
  the others, and \<open>uncompleted_overdue\<close> the uncompleted tasks with \<open>due_date <= now\<close>; hence
  \<open>completed + uncompleted = total\<close> and \<open>uncompleted_overdue \<le> uncompleted\<close>.
\<close>

theorem global_aggregates:
  assumes "f = generate_reports_figures \<or> f = display_stats_figures"
    and "f current_date username_password task_data = Inr (ov, uv)"
  shows "\<exists>tasks. create_task_list task_data = Inr tasks
     \<and> ov_total_tasks ov = length tasks
     \<and> ov_completed ov = length (filter completed tasks)
     \<and> ov_uncompleted ov = length (filter (\<lambda>t. \<not> completed t) tasks)
     \<and> ov_uncompleted_overdue ov =
         length (filter (\<lambda>t. \<not> completed t \<and> dt_le (due_date t) current_date) tasks)
     \<and> ov_completed ov + ov_uncompleted ov = ov_total_tasks ov
     \<and> ov_uncompleted_overdue ov \<le> ov_uncompleted ov"
proof -
  from assms have "generate_reports_figures current_date username_password task_data = Inr (ov, uv)"
    by (auto simp: display_stats_figures_eq)
  from figures_Inr [OF this] obtain tasks where t: "create_task_list task_data = Inr tasks"
    and ov: "ov = \<lparr>ov_total_tasks = length tasks,
                ov_completed = length (filter completed tasks),
                ov_uncompleted = length (filter (\<lambda>t. \<not> completed t) tasks),
                ov_percentage_uncompleted =
                  percentage (length (filter (\<lambda>t. \<not> completed t) tasks)) (length tasks),
                ov_uncompleted_overdue =
                  length (filter (\<lambda>t. \<not> completed t \<and> dt_le (due_date t) current_date) tasks),
                ov_percentage_overdue =
                  percentage (length (filter (\<lambda>t. \<not> completed t \<and> dt_le (due_date t) current_date) tasks))
                    (length tasks)\<rparr>"
    by blast
  have s: "length (filter completed tasks) + length (filter (\<lambda>t. \<not> completed t) tasks) = length tasks"
    by (rule sum_length_filter_compl)
  have "filter (\<lambda>t. \<not> completed t \<and> dt_le (due_date t) current_date) tasks
        = filter (\<lambda>t. dt_le (due_date t) current_date) (filter (\<lambda>t. \<not> completed t) tasks)"
    by (simp add: conj_commute)
  then have l: "length (filter (\<lambda>t. \<not> completed t \<and> dt_le (due_date t) current_date) tasks)
        \<le> length (filter (\<lambda>t. \<not> completed t) tasks)"
    by (simp only: length_filter_le)
  show ?thesis
    using t s l by (intro exI [of _ tasks]) (simp add: ov)
qed

theorem global_aggregates_witness:
  "\<exists>ov uv. generate_reports_figures example_now example_users example_task_data = Inr (ov, uv)
     \<and> ov_total_tasks ov = 3
     \<and> ov_completed ov + ov_uncompleted ov = ov_total_tasks ov
     \<and> ov_uncompleted_overdue ov \<le> ov_uncompleted ov"
proof -
  have "\<forall>t\<in>set example_tasks. username t \<in> fst ` set example_users"
    by (simp add: example_tasks_def example_users_def)
  from figures_known [OF example_create_task_list this, of example_now]
  obtain ov uv where r: "generate_reports_figures example_now example_users example_task_data = Inr (ov, uv)"
    by auto
  from global_aggregates [OF disjI1 [OF refl] r] example_create_task_list
  have "ov_total_tasks ov = length example_tasks
     \<and> ov_completed ov + ov_uncompleted ov = ov_total_tasks ov
     \<and> ov_uncompleted_overdue ov \<le> ov_uncompleted ov"
    by auto
  with r show ?thesis by (auto simp: example_tasks_def)
qed

lemma figures_InrE:
  assumes "generate_reports_figures d up td = Inr (ov, uv)"
  obtains tasks us where "create_task_list td = Inr tasks"
    and "\<forall>t\<in>set tasks. username t \<in> fst ` set up"
    and "map fst us = map fst (gr_user_stats up)"
    and "ov_total_tasks ov = length tasks"
    and "ov_percentage_uncompleted ov = percentage (ov_uncompleted ov) (ov_total_tasks ov)"
    and "ov_percentage_overdue ov = percentage (ov_uncompleted_overdue ov) (ov_total_tasks ov)"
    and "uov_entries uv = map (user_entry_of (length tasks)) us"
proof -
  from figures_Inr [OF assms] obtain tasks us where
    "create_task_list td = Inr tasks
     \<and> (\<forall>t\<in>set tasks. username t \<in> fst ` set up)
     \<and> map fst us = map fst (gr_user_stats up)
     \<and> ov = \<lparr>ov_total_tasks = length tasks,
                ov_completed = length (filter completed tasks),
                ov_uncompleted = length (filter (\<lambda>t. \<not> completed t) tasks),
                ov_percentage_uncompleted =
                  percentage (length (filter (\<lambda>t. \<not> completed t) tasks)) (length tasks),
                ov_uncompleted_overdue = length (filter (\<lambda>t. \<not> completed t \<and> dt_le (due_date t) d) tasks),
                ov_percentage_overdue =
                  percentage (length (filter (\<lambda>t. \<not> completed t \<and> dt_le (due_date t) d) tasks)) (length tasks)\<rparr>
     \<and> uv = \<lparr>uov_total_users = length up,
                uov_total_tasks = length tasks,
                uov_entries = map (user_entry_of (length tasks)) us\<rparr>"
    by (elim exE)
  then show ?thesis by (intro that [of tasks us]) simp_all
qed

lemma entry_zero_assigned:
  "ue_total_assigned (user_entry_of n p) = 0 \<Longrightarrow>
   ue_percentage_assigned (user_entry_of n p) = 0
   \<and> ue_percentage_completed (user_entry_of n p) = 0
   \<and> ue_percentage_uncompleted (user_entry_of n p) = 0
   \<and> ue_percentage_uncompleted_overdue (user_entry_of n p) = 0"
  by (simp add: user_entry_of_def percentage_zero_total percentage_zero_count)

lemma percentage_examples:
  "percentage 1 3 = 33" "percentage 2 3 = 66" "percentage 1 2 = 50" "percentage 29 50 = 57"
  by (simp_all add: percentage_def percent_expr_def py_truediv_def round_to_double_def
      py_float_mul_def py_int_of_float_def round_half_even_def bit_length.simps Let_def)

lemma example_gr_loop_bob:
  "gr_loop example_now (Suc 0) example_task_data (stats_start (example_users @ [(''bob'', ''pw'')]))
     = Inr \<lparr>st_task_list = example_tasks, st_total_tasks_completed = 1,
            st_total_tasks_uncompleted = 2, st_total_tasks_uncompleted_overdue = 1,
            st_user_stats =
              [(''admin'', \<lparr>total_tasks_assigned = 1, total_tasks_completed = 1,
                           total_tasks_uncompleted = 0, total_tasks_uncompleted_overdue = 0\<rparr>),
               (''alice'', \<lparr>total_tasks_assigned = 2, total_tasks_completed = 0,
                           total_tasks_uncompleted = 2, total_tasks_uncompleted_overdue = 1\<rparr>),
               (''bob'', \<lparr>total_tasks_assigned = 0, total_tasks_completed = 0,
                         total_tasks_uncompleted = 0, total_tasks_uncompleted_overdue = 0\<rparr>)]\<rparr>"
    by code_simp

lemma example_gr_loop:
  "gr_loop example_now (Suc 0) example_task_data (stats_start example_users)
     = Inr \<lparr>st_task_list = example_tasks, st_total_tasks_completed = 1,
            st_total_tasks_uncompleted = 2, st_total_tasks_uncompleted_overdue = 1,
            st_user_stats =
              [(''admin'', \<lparr>total_tasks_assigned = 1, total_tasks_completed = 1,
                           total_tasks_uncompleted = 0, total_tasks_uncompleted_overdue = 0\<rparr>),
               (''alice'', \<lparr>total_tasks_assigned = 2, total_tasks_completed = 0,
                           total_tasks_uncompleted = 2, total_tasks_uncompleted_overdue = 1\<rparr>)]\<rparr>"
  by code_simp

subsection \<open>Tasks of unknown users\<close>

text \<open>
  C10: the statistics are only computed when every task's username is a key of the dict of
  users. Task data with a line whose username field is not a key makes both statistics
  functions raise; when all lines parse, the exception is the KeyError of the first task
  whose username is unknown (the lookup \<open>user_stats[username]\<close> fails), and when all
  usernames are keys the functions return their figures.
\<close>

theorem statistics_abort_on_unknown_username:
  assumes "f = generate_reports_figures \<or> f = display_stats_figures"
  shows "((\<exists>c\<in>set task_data. \<exists>u. nth_py c 1 = Inr u \<and> u \<notin> fst ` set username_password)
            \<longrightarrow> (\<exists>e. f current_date username_password task_data = Inl e))
     \<and> (\<forall>tasks. create_task_list task_data = Inr tasks \<longrightarrow>
           (\<forall>t. find (\<lambda>t. username t \<notin> fst ` set username_password) tasks = Some t
                \<longrightarrow> f current_date username_password task_data = Inl (KeyError (username t)))
         \<and> ((\<forall>t\<in>set tasks. username t \<in> fst ` set username_password)
                \<longrightarrow> (\<exists>r. f current_date username_password task_data = Inr r)))"
proof -
  from assms have f: "f = generate_reports_figures" by (auto simp: display_stats_figures_eq)
  show ?thesis
    unfolding f
    by (blast intro: figures_abort figures_unknown figures_known)
qed

theorem statistics_abort_on_unknown_username_witness:
  "generate_reports_figures example_now [(''admin'', ''password'')] example_task_data
     = Inl (KeyError ''alice'')
   \<and> (\<exists>e. display_stats_figures example_now [(''admin'', ''password'')] example_task_data = Inl e)
   \<and> (\<exists>r. generate_reports_figures example_now example_users example_task_data = Inr r)"
proof -
  have a: "find (\<lambda>t. username t \<notin> fst ` set [(''admin'', ''password'')]) example_tasks
        = Some (example_tasks ! 1)"
    by (simp add: example_tasks_def)
  have b: "\<exists>c\<in>set example_task_data. \<exists>u. nth_py c 1 = Inr u \<and> u \<notin> fst ` set [(''admin'', ''password'')]"
    by (simp add: example_task_data_def nth_py_def)
  have c: "\<forall>t\<in>set example_tasks. username t \<in> fst ` set example_users"
    by (simp add: example_tasks_def example_users_def)
  have u: "username (example_tasks ! 1) = ''alice''"
    by (simp add: example_tasks_def)
  from statistics_abort_on_unknown_username [OF disjI1 [OF refl],
      of example_task_data "[(''admin'', ''password'')]" example_now]
    example_create_task_list a u
  have 1: "generate_reports_figures example_now [(''admin'', ''password'')] example_task_data
     = Inl (KeyError ''alice'')" by auto
  from statistics_abort_on_unknown_username [OF disjI2 [OF refl],
      of example_task_data "[(''admin'', ''password'')]" example_now] b
  have 2: "\<exists>e. display_stats_figures example_now [(''admin'', ''password'')] example_task_data = Inl e"
    by blast
  from statistics_abort_on_unknown_username [OF disjI1 [OF refl],
      of example_task_data example_users example_now] example_create_task_list c
  have 3: "\<exists>r. generate_reports_figures example_now example_users example_task_data = Inr r"
    by blast
  from 1 2 3 show ?thesis by blast
qed

subsection \<open>Percentages\<close>

text \<open>
  C6: no percentage computation divides by zero. Neither statistics function raises
  ZeroDivisionError; for a user with no task assigned all four percentages of the user are
  0; and when there is no task (in particular for empty task data, where the functions
  return) both global percentages are 0.
\<close>

theorem no_division_by_zero:
  assumes "f = generate_reports_figures \<or> f = display_stats_figures"
  shows "f current_date username_password task_data \<noteq> Inl ZeroDivisionError
     \<and> (\<forall>ov uv. f current_date username_password task_data = Inr (ov, uv) \<longrightarrow>
          (\<forall>e\<in>set (uov_entries uv). ue_total_assigned e = 0 \<longrightarrow>
               ue_percentage_assigned e = 0 \<and> ue_percentage_completed e = 0
             \<and> ue_percentage_uncompleted e = 0 \<and> ue_percentage_uncompleted_overdue e = 0)
        \<and> (ov_total_tasks ov = 0 \<longrightarrow> ov_percentage_uncompleted ov = 0 \<and> ov_percentage_overdue ov = 0))
     \<and> (\<exists>ov uv. f current_date username_password [] = Inr (ov, uv)
          \<and> ov_total_tasks ov = 0 \<and> ov_percentage_uncompleted ov = 0 \<and> ov_percentage_overdue ov = 0)"
proof -
  from assms have f: "f = generate_reports_figures" by (auto simp: display_stats_figures_eq)
  have 1: "generate_reports_figures current_date username_password task_data \<noteq> Inl ZeroDivisionError"
    using figures_error by blast
  have 2: "\<forall>e\<in>set (uov_entries uv). ue_total_assigned e = 0 \<longrightarrow>
               ue_percentage_assigned e = 0 \<and> ue_percentage_completed e = 0
             \<and> ue_percentage_uncompleted e = 0 \<and> ue_percentage_uncompleted_overdue e = 0"
    and 3: "ov_total_tasks ov = 0 \<longrightarrow> ov_percentage_uncompleted ov = 0 \<and> ov_percentage_overdue ov = 0"
    if r: "generate_reports_figures current_date username_password task_data = Inr (ov, uv)" for ov uv
  proof -
    from r obtain tasks :: "task list" and us where
      ov: "ov_percentage_uncompleted ov = percentage (ov_uncompleted ov) (ov_total_tasks ov)"
        "ov_percentage_overdue ov = percentage (ov_uncompleted_overdue ov) (ov_total_tasks ov)"
      and uv: "uov_entries uv = map (user_entry_of (length tasks)) us"
      by (rule figures_InrE) blast
    show "\<forall>e\<in>set (uov_entries uv). ue_total_assigned e = 0 \<longrightarrow>
               ue_percentage_assigned e = 0 \<and> ue_percentage_completed e = 0
             \<and> ue_percentage_uncompleted e = 0 \<and> ue_percentage_uncompleted_overdue e = 0"
      using entry_zero_assigned by (auto simp: uv)
    show "ov_total_tasks ov = 0 \<longrightarrow> ov_percentage_uncompleted ov = 0 \<and> ov_percentage_overdue ov = 0"
      by (simp add: ov percentage_zero_total)
  qed
  have 4: "\<exists>ov uv. generate_reports_figures current_date username_password [] = Inr (ov, uv)
          \<and> ov_total_tasks ov = 0 \<and> ov_percentage_uncompleted ov = 0 \<and> ov_percentage_overdue ov = 0"
    by (simp add: figures_unfold stats_start_def percentage_zero_total)
  from 1 2 3 4 show ?thesis unfolding f by blast
qed

theorem no_division_by_zero_witness:
  "\<exists>ov uv. display_stats_figures example_now (example_users @ [(''bob'', ''pw'')]) example_task_data
        = Inr (ov, uv)
     \<and> (\<exists>e\<in>set (uov_entries uv). ue_username e = ''bob'' \<and> ue_total_assigned e = 0
           \<and> ue_percentage_assigned e = 0 \<and> ue_percentage_completed e = 0
           \<and> ue_percentage_uncompleted e = 0 \<and> ue_percentage_uncompleted_overdue e = 0)"
proof -
  note l = example_gr_loop_bob
  obtain ov uv where r: "display_stats_figures example_now (example_users @ [(''bob'', ''pw'')]) example_task_data
        = Inr (ov, uv)"
    and e: "user_entry_of (length example_tasks) (''bob'', \<lparr>total_tasks_assigned = 0, total_tasks_completed = 0,
                         total_tasks_uncompleted = 0, total_tasks_uncompleted_overdue = 0\<rparr>)
            \<in> set (uov_entries uv)"
    by (simp add: display_stats_figures_eq figures_unfold l)
  from no_division_by_zero [OF disjI2 [OF refl],
      of example_now "example_users @ [(''bob'', ''pw'')]" example_task_data] r e
  show ?thesis
    by (intro exI [of _ ov] exI [of _ uv] conjI r bexI [OF _ e]) (auto simp: user_entry_of_def)
qed

subsection \<open>The counters of a user\<close>

lemma add_one_lookup:
  "add_one f u us = Inr us' \<Longrightarrow>
   map_of us' v = (if v = u then map_option f (map_of us u) else map_of us v)"
  by (auto simp: add_one_def update_conv' split: option.splits)

lemma tally_completed:
  "completed t \<Longrightarrow> inc_assigned (inc_completed c) = tally d t c"
  by (simp add: inc_assigned_def inc_completed_def tally_def)

lemma tally_overdue:
  "\<not> completed t \<Longrightarrow> dt_le (due_date t) d \<Longrightarrow>
   inc_assigned (inc_uncompleted_overdue (inc_uncompleted c)) = tally d t c"
  by (simp add: inc_assigned_def inc_uncompleted_overdue_def inc_uncompleted_def tally_def)

lemma tally_uncompleted:
  "\<not> completed t \<Longrightarrow> \<not> dt_le (due_date t) d \<Longrightarrow>
   inc_assigned (inc_uncompleted c) = tally d t c"
  by (simp add: inc_assigned_def inc_uncompleted_def tally_def)

lemma gr_step_lookup:
  assumes "gr_step d i c st = Inr st'" and "create_task_list_item i c = Inr t"
  shows "map_of (st_user_stats st') v =
     (if v = username t then map_option (tally d t) (map_of (st_user_stats st) v)
      else map_of (st_user_stats st) v)"
proof (cases "completed t")
  case True
  with assms obtain u1 u2 where
    1: "add_one inc_completed (username t) (st_user_stats st) = Inr u1"
    and 2: "add_one inc_assigned (username t) u1 = Inr u2"
    and e: "st_user_stats st' = u2"
    by (auto simp: gr_step_def gr_curr_t_eq Let_def split: sum.splits)
  show ?thesis
    unfolding e
    by (simp add: add_one_lookup [OF 2] add_one_lookup [OF 1] option.map_comp comp_def
        tally_completed [OF True, where d = d])
next
  case False
  show ?thesis
  proof (cases "dt_le (due_date t) d")
    case True
    with False assms obtain u1 u2 u3 where
      1: "add_one inc_uncompleted (username t) (st_user_stats st) = Inr u1"
      and 2: "add_one inc_uncompleted_overdue (username t) u1 = Inr u2"
      and 3: "add_one inc_assigned (username t) u2 = Inr u3"
      and e: "st_user_stats st' = u3"
      by (auto simp: gr_step_def gr_curr_t_eq Let_def split: sum.splits)
    show ?thesis
      unfolding e
      by (simp add: add_one_lookup [OF 3] add_one_lookup [OF 2] add_one_lookup [OF 1]
          option.map_comp comp_def tally_overdue [OF False True])
  next
    case nd: False
    with False assms obtain u1 u2 where
      1: "add_one inc_uncompleted (username t) (st_user_stats st) = Inr u1"
      and 2: "add_one inc_assigned (username t) u1 = Inr u2"
      and e: "st_user_stats st' = u2"
      by (auto simp: gr_step_def gr_curr_t_eq Let_def split: sum.splits)
    show ?thesis
      unfolding e
      by (simp add: add_one_lookup [OF 2] add_one_lookup [OF 1] option.map_comp comp_def
          tally_uncompleted [OF False nd])
  qed
qed

lemma user_counts_Cons_same:
  "username t = v \<Longrightarrow>
   add_counters (user_counts d v (t # tasks)) c = add_counters (user_counts d v tasks) (tally d t c)"
  by (simp add: add_counters_def user_counts_def tally_def)

lemma user_counts_Cons_other:
  "username t \<noteq> v \<Longrightarrow> user_counts d v (t # tasks) = user_counts d v tasks"
  by (simp add: user_counts_def)

lemma gr_loop_lookup:
  "gr_loop d i td st = Inr st' \<Longrightarrow> create_task_list_from i td = Inr tasks \<Longrightarrow>
   map_of (st_user_stats st') v =
     map_option (add_counters (user_counts d v tasks)) (map_of (st_user_stats st) v)"
proof (induction td arbitrary: i st tasks)
  case Nil
  have "add_counters (user_counts d v []) c = c" for c
    by (cases c) (simp add: add_counters_def user_counts_def)
  then have "add_counters (user_counts d v []) = (\<lambda>c. c)" by (rule ext)
  with Nil show ?case by (simp add: option.map_ident)
next
  case (Cons c td)
  from Cons.prems(1) obtain st1 where s1: "gr_step d i c st = Inr st1"
    and l: "gr_loop d (Suc i) td st1 = Inr st'"
    by (auto split: sum.splits)
  from Cons.prems(2) obtain t tasks1 where t: "create_task_list_item i c = Inr t"
    and r: "create_task_list_from (Suc i) td = Inr tasks1" and e: "tasks = t # tasks1"
    by (auto split: sum.splits)
  note ih = Cons.IH [OF l r] and st = gr_step_lookup [OF s1 t, of v]
  show ?case
  proof (cases "v = username t")
    case True
    then have "add_counters (user_counts d v tasks) = (\<lambda>c. add_counters (user_counts d v tasks1) (tally d t c))"
      using user_counts_Cons_same [of t v d tasks1] by (auto simp: e)
    with ih st True show ?thesis by (simp add: option.map_comp comp_def)
  next
    case False
    with ih st show ?thesis by (simp add: e user_counts_Cons_other)
  qed
qed

lemma foldl_update_lookup:
  "map_of (foldl (\<lambda>us u. AList.update u z us) acc ks) v =
     (if v \<in> set ks then Some z else map_of acc v)"
  by (induction ks arbitrary: acc) (auto simp: update_conv')

lemma foldl_update_distinct:
  "distinct (map fst acc) \<Longrightarrow> distinct (map fst (foldl (\<lambda>us u. AList.update u z us) acc ks))"
  by (induction ks arbitrary: acc) (simp_all add: distinct_update)

lemma gr_user_stats_lookup:
  "map_of (gr_user_stats up) v = (if v \<in> fst ` set up then Some zero_counters else None)"
  by (simp add: gr_user_stats_def foldl_update_lookup)

lemma gr_user_stats_distinct: "distinct (map fst (gr_user_stats up))"
  by (simp add: gr_user_stats_def foldl_update_distinct)

lemma add_counters_zero: "add_counters a zero_counters = a"
  by (simp add: add_counters_def zero_counters_def)

lemma figures_entries:
  assumes "generate_reports_figures d up td = Inr (ov, uv)"
  shows "\<exists>tasks. create_task_list td = Inr tasks
     \<and> ov_total_tasks ov = length tasks
     \<and> distinct (map ue_username (uov_entries uv))
     \<and> ue_username ` set (uov_entries uv) = fst ` set up
     \<and> (\<forall>e\<in>set (uov_entries uv).
           e = user_entry_of (length tasks) (ue_username e, user_counts d (ue_username e) tasks))"
proof -
  from assms obtain st where l: "gr_loop d 1 td (stats_start up) = Inr st"
    and ov: "ov_total_tasks ov = length (st_task_list st)"
    and uv: "uov_entries uv = map (user_entry_of (length (st_task_list st))) (st_user_stats st)"
    by (auto simp: figures_unfold split: sum.splits)
  from gr_loop_Inr [OF l] obtain tasks where c: "create_task_list_from 1 td = Inr tasks"
    and tl: "st_task_list st = st_task_list (stats_start up) @ tasks"
    and k: "map fst (st_user_stats st) = map fst (st_user_stats (stats_start up))"
    by blast
  from tl have n: "length (st_task_list st) = length tasks" by (simp add: stats_start_def)
  from k have k1: "map fst (st_user_stats st) = map fst (gr_user_stats up)"
    by (simp add: stats_start_def)
  have u: "map ue_username (uov_entries uv) = map fst (st_user_stats st)"
    by (simp add: uv user_entry_of_def comp_def)
  have d: "distinct (map fst (st_user_stats st))" by (simp add: k1 gr_user_stats_distinct)
  have cnt: "cs = user_counts d v tasks" if m: "(v, cs) \<in> set (st_user_stats st)" for v cs
  proof -
    from m d have a: "map_of (st_user_stats st) v = Some cs" by simp
    from m have "v \<in> fst ` set (st_user_stats st)" by force
    also have "fst ` set (st_user_stats st) = fst ` set up"
      using k1 gr_user_stats_keys [of up] by (metis list.set_map)
    finally have "map_of (st_user_stats (stats_start up)) v = Some zero_counters"
      by (simp add: stats_start_def gr_user_stats_lookup)
    with gr_loop_lookup [OF l c, of v] a show ?thesis by (simp add: add_counters_zero)
  qed
  show ?thesis
  proof (intro exI [of _ tasks] conjI ballI)
    show "create_task_list td = Inr tasks" using c by (simp add: create_task_list_def)
    show "ov_total_tasks ov = length tasks" using ov n by simp
    show "distinct (map ue_username (uov_entries uv))" using u d by simp
    show "ue_username ` set (uov_entries uv) = fst ` set up"
      using u k1 gr_user_stats_keys [of up] by (metis list.set_map)
    fix e assume "e \<in> set (uov_entries uv)"
    then obtain v cs where m: "(v, cs) \<in> set (st_user_stats st)"
      and e: "e = user_entry_of (length tasks) (v, cs)"
      by (auto simp: uv n)
    from e have "ue_username e = v" by (simp add: user_entry_of_def)
    with e cnt [OF m] show "e = user_entry_of (length tasks) (ue_username e, user_counts d (ue_username e) tasks)"
      by simp
  qed
qed

text \<open>
  C8: when the statistics are computed (for the reports or for the screen) there is one
  block for each user of the dict of users; its four counts are the numbers of that user's
  tasks (assigned, completed, not completed, not completed and due on or before the current
  date); the percentage of tasks assigned is computed from the user's assigned count and
  the number of ALL tasks, while the percentages of completed, uncompleted and overdue
  tasks are computed from the respective count and the user's own assigned count.
  \<open>percentage a b\<close> is the integer shown for \<open>(a / b) * 100 if b > 0 else 0\<close>.
\<close>

theorem per_user_percentage_bases:
  assumes "f = generate_reports_figures \<or> f = display_stats_figures"
    and "f current_date username_password task_data = Inr (ov, uv)"
  shows "\<exists>tasks. create_task_list task_data = Inr tasks
     \<and> ov_total_tasks ov = length tasks
     \<and> distinct (map ue_username (uov_entries uv))
     \<and> ue_username ` set (uov_entries uv) = fst ` set username_password
     \<and> (\<forall>e\<in>set (uov_entries uv).
           ue_total_assigned e = length (filter (\<lambda>t. username t = ue_username e) tasks)
         \<and> ue_total_completed e =
             length (filter (\<lambda>t. username t = ue_username e \<and> completed t) tasks)
         \<and> ue_total_uncompleted e =
             length (filter (\<lambda>t. username t = ue_username e \<and> \<not> completed t) tasks)
         \<and> ue_total_uncompleted_overdue e =
             length (filter (\<lambda>t. username t = ue_username e \<and> \<not> completed t
                                  \<and> dt_le (due_date t) current_date) tasks)
         \<and> ue_percentage_assigned e = percentage (ue_total_assigned e) (ov_total_tasks ov)
         \<and> ue_percentage_completed e = percentage (ue_total_completed e) (ue_total_assigned e)
         \<and> ue_percentage_uncompleted e = percentage (ue_total_uncompleted e) (ue_total_assigned e)
         \<and> ue_percentage_uncompleted_overdue e =
             percentage (ue_total_uncompleted_overdue e) (ue_total_assigned e))"
proof -
  from assms have "generate_reports_figures current_date username_password task_data = Inr (ov, uv)"
    by (auto simp: display_stats_figures_eq)
  from figures_entries [OF this] obtain tasks where
    c: "create_task_list task_data = Inr tasks"
    and n: "ov_total_tasks ov = length tasks"
    and d: "distinct (map ue_username (uov_entries uv))"
    and k: "ue_username ` set (uov_entries uv) = fst ` set username_password"
    and e: "\<forall>e\<in>set (uov_entries uv).
           e = user_entry_of (length tasks) (ue_username e, user_counts current_date (ue_username e) tasks)"
    by blast
  have "ue_total_assigned x = length (filter (\<lambda>t. username t = ue_username x) tasks)
         \<and> ue_total_completed x =
             length (filter (\<lambda>t. username t = ue_username x \<and> completed t) tasks)
         \<and> ue_total_uncompleted x =
             length (filter (\<lambda>t. username t = ue_username x \<and> \<not> completed t) tasks)
         \<and> ue_total_uncompleted_overdue x =
             length (filter (\<lambda>t. username t = ue_username x \<and> \<not> completed t
                                  \<and> dt_le (due_date t) current_date) tasks)
         \<and> ue_percentage_assigned x = percentage (ue_total_assigned x) (ov_total_tasks ov)
         \<and> ue_percentage_completed x = percentage (ue_total_completed x) (ue_total_assigned x)
         \<and> ue_percentage_uncompleted x = percentage (ue_total_uncompleted x) (ue_total_assigned x)
         \<and> ue_percentage_uncompleted_overdue x =
             percentage (ue_total_uncompleted_overdue x) (ue_total_assigned x)"
    if x: "x \<in> set (uov_entries uv)" for x
  proof -
    from e x have "x = user_entry_of (length tasks) (ue_username x, user_counts current_date (ue_username x) tasks)"
      by blast
    then obtain v where "x = user_entry_of (length tasks) (v, user_counts current_date v tasks)"
      by blast
    then show ?thesis by (simp add: user_entry_of_def user_counts_def n)
  qed
  then have "\<forall>x\<in>set (uov_entries uv).
           ue_total_assigned x = length (filter (\<lambda>t. username t = ue_username x) tasks)
         \<and> ue_total_completed x =
             length (filter (\<lambda>t. username t = ue_username x \<and> completed t) tasks)
         \<and> ue_total_uncompleted x =
             length (filter (\<lambda>t. username t = ue_username x \<and> \<not> completed t) tasks)
         \<and> ue_total_uncompleted_overdue x =
             length (filter (\<lambda>t. username t = ue_username x \<and> \<not> completed t
                                  \<and> dt_le (due_date t) current_date) tasks)
         \<and> ue_percentage_assigned x = percentage (ue_total_assigned x) (ov_total_tasks ov)
         \<and> ue_percentage_completed x = percentage (ue_total_completed x) (ue_total_assigned x)
         \<and> ue_percentage_uncompleted x = percentage (ue_total_uncompleted x) (ue_total_assigned x)
         \<and> ue_percentage_uncompleted_overdue x =
             percentage (ue_total_uncompleted_overdue x) (ue_total_assigned x)" ..
  with c n d k show ?thesis by (intro exI [of _ tasks] conjI)
qed

theorem per_user_percentage_bases_witness:
  "\<exists>ov uv. generate_reports_figures example_now example_users example_task_data = Inr (ov, uv)
     \<and> ov_total_tasks ov = 3
     \<and> (\<exists>e\<in>set (uov_entries uv). ue_username e = ''alice''
           \<and> ue_total_assigned e = 2 \<and> ue_percentage_assigned e = 66
           \<and> ue_total_completed e = 0 \<and> ue_percentage_completed e = 0
           \<and> ue_total_uncompleted e = 2
           \<and> ue_total_uncompleted_overdue e = 1 \<and> ue_percentage_uncompleted_overdue e = 50)
     \<and> (\<exists>e\<in>set (uov_entries uv). ue_username e = ''admin''
           \<and> ue_total_assigned e = 1 \<and> ue_percentage_assigned e = 33
           \<and> ue_total_completed e = 1)"
proof -
  have "\<forall>t\<in>set example_tasks. username t \<in> fst ` set example_users"
    by (simp add: example_tasks_def example_users_def)
  from figures_known [OF example_create_task_list this, of example_now]
  obtain ov uv where r: "generate_reports_figures example_now example_users example_task_data = Inr (ov, uv)"
    by auto
  from per_user_percentage_bases [OF disjI1 [OF refl] r] example_create_task_list
  have n: "ov_total_tasks ov = length example_tasks"
    and k: "ue_username ` set (uov_entries uv) = fst ` set example_users"
    and e: "\<forall>e\<in>set (uov_entries uv).
           ue_total_assigned e = length (filter (\<lambda>t. username t = ue_username e) example_tasks)
         \<and> ue_total_completed e =
             length (filter (\<lambda>t. username t = ue_username e \<and> completed t) example_tasks)
         \<and> ue_total_uncompleted e =
             length (filter (\<lambda>t. username t = ue_username e \<and> \<not> completed t) example_tasks)
         \<and> ue_total_uncompleted_overdue e =
             length (filter (\<lambda>t. username t = ue_username e \<and> \<not> completed t
                                  \<and> dt_le (due_date t) example_now) example_tasks)
         \<and> ue_percentage_assigned e = percentage (ue_total_assigned e) (ov_total_tasks ov)
         \<and> ue_percentage_completed e = percentage (ue_total_completed e) (ue_total_assigned e)
         \<and> ue_percentage_uncompleted e = percentage (ue_total_uncompleted e) (ue_total_assigned e)
         \<and> ue_percentage_uncompleted_overdue e =
             percentage (ue_total_uncompleted_overdue e) (ue_total_assigned e)"
    by auto
  have "''alice'' \<in> ue_username ` set (uov_entries uv)" "''admin'' \<in> ue_username ` set (uov_entries uv)"
    unfolding k by (simp_all add: example_users_def)
  then obtain a b where a: "a \<in> set (uov_entries uv)" "ue_username a = ''alice''"
    and b: "b \<in> set (uov_entries uv)" "ue_username b = ''admin''"
    by auto
  have l: "length example_tasks = 3" by (simp add: example_tasks_def)
  have z: "percentage 0 2 = 0" by (simp add: percentage_def percent_expr_def py_truediv_def round_to_double_def
      py_float_mul_def py_int_of_float_def)
  from e a have ea: "ue_total_assigned a = 2" "ue_total_completed a = 0" "ue_total_uncompleted a = 2"
    "ue_total_uncompleted_overdue a = 1"
    by (simp_all add: example_tasks_def example_now_def dt_le_def dt_less_def dt_fields_def)
  from e b have eb: "ue_total_assigned b = 1" "ue_total_completed b = 1"
    by (simp_all add: example_tasks_def)
  from e a ea n l have pa: "ue_percentage_assigned a = 66" "ue_percentage_completed a = 0"
    "ue_percentage_uncompleted_overdue a = 50"
    by (simp_all add: percentage_examples z del: One_nat_def)
  from e b eb n l have pb: "ue_percentage_assigned b = 33"
    by (simp_all add: percentage_examples del: One_nat_def)
  show ?thesis
    by (intro exI [of _ ov] exI [of _ uv] conjI r bexI [OF _ a(1)] bexI [OF _ b(1)])
       (simp_all add: n l a b ea eb pa pb)
qed

section \<open>Properties of viewing and editing\<close>

subsection \<open>The numbering of the tasks of a user\<close>

lemma create_task_list_from_numbers:
  "create_task_list_from i td = Inr tasks \<Longrightarrow>
   length tasks = length td \<and> (\<forall>k<length tasks. number (tasks ! k) = int (i + k))"
proof (induction td arbitrary: i tasks)
  case Nil
  then show ?case by simp
next
  case (Cons c td)
  from Cons.prems obtain t tasks1 where t: "create_task_list_item i c = Inr t"
    and r: "create_task_list_from (Suc i) td = Inr tasks1" and e: "tasks = t # tasks1"
    by (auto split: sum.splits)
  from t have n: "number t = int i"
    by (auto simp: create_task_list_item_def split: sum.splits)
  from Cons.IH [OF r] have l: "length tasks1 = length td"
    and h: "\<forall>k<length tasks1. number (tasks1 ! k) = int (Suc i + k)" by auto
  show ?case
  proof (intro conjI allI impI)
    show "length tasks = length (c # td)" using l e by simp
    fix k assume "k < length tasks"
    then show "number (tasks ! k) = int (i + k)"
      using e n h by (cases k) auto
  qed
qed

lemma my_tasks_from_eq:
  "\<forall>k<length tasks. number (tasks ! k) = int (i + k) \<Longrightarrow>
   fst (my_tasks_from curr_user i tasks w) =
     map (\<lambda>t. t\<lparr>task_number := Some (number t)\<rparr>) (filter (\<lambda>t. username t = curr_user) tasks)"
proof (induction tasks arbitrary: i w)
  case Nil
  then show ?case by simp
next
  case (Cons t tasks)
  from Cons.prems have n: "number t = int i" by auto
  from Cons.prems have "\<forall>k<length tasks. number (tasks ! k) = int (Suc i + k)" by auto
  from Cons.IH [OF this]
  have ih: "\<And>w. fst (my_tasks_from curr_user (Suc i) tasks w) =
     map (\<lambda>t. t\<lparr>task_number := Some (number t)\<rparr>) (filter (\<lambda>t. username t = curr_user) tasks)" .
  show ?case
  proof (cases "username t = curr_user")
    case True
    obtain m w2 where r: "my_tasks_from curr_user (Suc i) tasks (print_msg (Out_my_task t) w) = (m, w2)"
      by (cases "my_tasks_from curr_user (Suc i) tasks (print_msg (Out_my_task t) w)")
    with ih [of "print_msg (Out_my_task t) w"] have "m =
      map (\<lambda>t. t\<lparr>task_number := Some (number t)\<rparr>) (filter (\<lambda>t. username t = curr_user) tasks)"
      by simp
    with True r n show ?thesis by (simp add: Let_def)
  next
    case False
    with ih [of w] show ?thesis by simp
  qed
qed

lemma example_view_alice:
  "map_sum id (map task_number \<circ> fst) (view_my_tasks_option ''alice'' example_world) = Inr [Some 2, Some 3]"
  by code_simp

lemma example_view:
  "view_my_tasks_option ''alice'' example_world =
     Inr (example_tasks_of ''alice'',
          example_world\<lparr>stdout := [Out_your_tasks, Out_my_task (example_tasks ! 1),
                                    Out_my_task (example_tasks ! 2)]\<rparr>)"
  by code_simp

lemma example_py_int: "py_int ''3'' = Inr 3" "py_int ''1'' = Inr 1" "py_int ''2'' = Inr 2"
  by code_simp+

text \<open>
  C1, as the code has it: \<open>view_my_tasks_option\<close> returns the tasks of the user in the order
  of the task list, each annotated with a \<open>task_number\<close> equal to the task's \<open>number\<close>, which
  is its 1-based position in the FULL task list (not its position among the user's tasks).
\<close>

theorem view_my_tasks_numbering:
  assumes "view_my_tasks_option curr_user w = Inr (my_task_list, w1)"
  shows "\<exists>task_list. create_task_list (fst (read_tasks_file w)) = Inr task_list
     \<and> (\<forall>k<length task_list. number (task_list ! k) = int k + 1)
     \<and> my_task_list =
         map (\<lambda>t. t\<lparr>task_number := Some (number t)\<rparr>)
           (filter (\<lambda>t. username t = curr_user) task_list)"
proof -
  obtain task_data w0 where rd: "read_tasks_file w = (task_data, w0)" by (cases "read_tasks_file w")
  with assms obtain task_list where c: "create_task_list task_data = Inr task_list"
    and m: "my_task_list = fst (my_tasks_from curr_user 1 task_list (print_msg Out_your_tasks w0))"
    by (auto simp: view_my_tasks_option_def Let_def split: sum.splits prod.splits)
  from create_task_list_from_numbers [OF c [unfolded create_task_list_def]]
  have n: "\<forall>k<length task_list. number (task_list ! k) = int (1 + k)" by blast
  show ?thesis
  proof (intro exI [of _ task_list] conjI)
    show "create_task_list (fst (read_tasks_file w)) = Inr task_list" using rd c by simp
    show "\<forall>k<length task_list. number (task_list ! k) = int k + 1" using n by simp
    show "my_task_list = map (\<lambda>t. t\<lparr>task_number := Some (number t)\<rparr>)
           (filter (\<lambda>t. username t = curr_user) task_list)"
      using m my_tasks_from_eq [OF n] by simp
  qed
qed

theorem view_my_tasks_numbering_witness:
  "view_my_tasks_option ''alice'' example_world =
     Inr (example_tasks_of ''alice'',
          example_world\<lparr>stdout := [Out_your_tasks, Out_my_task (example_tasks ! 1),
                                    Out_my_task (example_tasks ! 2)]\<rparr>)
   \<and> map task_number (example_tasks_of ''alice'') = [Some 2, Some 3]
   \<and> map number (example_tasks_of ''alice'') = [2, 3]"
proof -
  from view_my_tasks_numbering [OF example_view] example_read_tasks_file example_create_task_list
  have "example_tasks_of ''alice'' =
         map (\<lambda>t. t\<lparr>task_number := Some (number t)\<rparr>)
           (filter (\<lambda>t. username t = ''alice'') example_tasks)"
    by auto
  then show ?thesis
    by (simp add: example_view) (simp add: example_tasks_def)
qed

text \<open>
  C1 as stated fails: alice owns the second and the third of three tasks, and her tasks are
  annotated 2 and 3, not 1 and 2 (their positions among her own tasks).
\<close>

theorem view_my_tasks_numbering_counterexample:
  "map_sum id (map task_number \<circ> fst) (view_my_tasks_option ''alice'' example_world)
     = Inr [Some 2, Some 3]
   \<and> map_sum id (map task_number \<circ> fst) (view_my_tasks_option ''alice'' example_world)
     \<noteq> Inr [Some 1, Some 2]"
  by (simp add: example_view_alice)

subsection \<open>Locked tasks\<close>

lemma edit_tasks_skip:
  "\<forall>p\<in>set pre. \<exists>k. task_number p = Some k \<and> k \<noteq> n \<Longrightarrow>
   edit_tasks d n (pre @ rest) w =
     (case edit_tasks d n rest w of
        Inl e \<Rightarrow> Inl e
      | Inr (ts1, task_found, w1) \<Rightarrow> Inr (pre @ ts1, task_found, w1))"
  by (induction pre) (auto split: sum.splits)

lemma edit_selected_task_locked:
  "completed t \<or> \<not> dt_greater (due_date t) d \<Longrightarrow>
   edit_selected_task d t w =
     Inr (t, True, print_msg Out_cannot_be_edited (print_msg (Out_task_details t) w))"
  by (auto simp: edit_selected_task_def Let_def)

text \<open>
  C3: when the selected task (the first of \<open>my_task_list\<close> with the selected \<open>task_number\<close>)
  is locked, that is completed or with a due date that is not after the current date,
  \<open>edit_task_details\<close> prints the task and the message that it cannot be edited and does
  nothing else: the task list, both files and the pending input are unchanged, whatever
  the input holds, so none of the three mutations can take place.
\<close>

theorem locked_task_rejects_edit:
  assumes "py_int edit_specific_task = Inr n"
    and "my_task_list = pre @ t # post"
    and "\<forall>p\<in>set pre. \<exists>k. task_number p = Some k \<and> k \<noteq> n"
    and "task_number t = Some n"
    and "completed t \<or> \<not> dt_greater (due_date t) current_date"
  shows "edit_task_details current_date my_task_list edit_specific_task w =
           Inr (my_task_list, w\<lparr>stdout := stdout w @ [Out_task_details t, Out_cannot_be_edited]\<rparr>)"
proof -
  have "edit_tasks current_date n (t # post) w =
      Inr (t # post, True, print_msg Out_cannot_be_edited (print_msg (Out_task_details t) w))"
    using assms(4) edit_selected_task_locked [OF assms(5)] by simp
  with edit_tasks_skip [OF assms(3), of current_date "t # post" w]
  have "edit_tasks current_date n my_task_list w =
      Inr (my_task_list, True, print_msg Out_cannot_be_edited (print_msg (Out_task_details t) w))"
    by (simp add: assms(2))
  then show ?thesis
    by (simp add: edit_task_details_def assms(1) print_msg_def)
qed

theorem locked_task_rejects_edit_witness:
  "edit_task_details example_now (example_tasks_of ''alice'') ''3''
       (example_world\<lparr>stdin := [''c'', ''yes'']\<rparr>)
     = Inr (example_tasks_of ''alice'',
            example_world\<lparr>stdin := [''c'', ''yes''],
                           stdout := [Out_task_details (example_tasks_of ''alice'' ! 1),
                                      Out_cannot_be_edited]\<rparr>)
   \<and> edit_task_details example_now (example_tasks_of ''admin'') ''1''
       (example_world\<lparr>stdin := [''d'', ''31-12-2100'']\<rparr>)
     = Inr (example_tasks_of ''admin'',
            example_world\<lparr>stdin := [''d'', ''31-12-2100''],
                           stdout := [Out_task_details (example_tasks_of ''admin'' ! 0),
                                      Out_cannot_be_edited]\<rparr>)"
proof -
  have a: "example_tasks_of ''alice'' =
      [example_tasks_of ''alice'' ! 0] @ (example_tasks_of ''alice'' ! 1) # []"
    by (simp add: example_tasks_of_def example_tasks_def)
  have a1: "\<forall>p\<in>set [example_tasks_of ''alice'' ! 0]. \<exists>k. task_number p = Some k \<and> k \<noteq> 3"
    by (simp add: example_tasks_of_def example_tasks_def)
  have a2: "task_number (example_tasks_of ''alice'' ! 1) = Some 3"
    by (simp add: example_tasks_of_def example_tasks_def)
  have a3: "completed (example_tasks_of ''alice'' ! 1)
      \<or> \<not> dt_greater (due_date (example_tasks_of ''alice'' ! 1)) example_now"
    by (simp add: example_tasks_of_def example_tasks_def example_now_def
        dt_greater_def dt_less_def dt_fields_def)
  have b: "example_tasks_of ''admin'' = [] @ (example_tasks_of ''admin'' ! 0) # []"
    by (simp add: example_tasks_of_def example_tasks_def)
  have b2: "task_number (example_tasks_of ''admin'' ! 0) = Some 1"
    by (simp add: example_tasks_of_def example_tasks_def)
  have b3: "completed (example_tasks_of ''admin'' ! 0)
      \<or> \<not> dt_greater (due_date (example_tasks_of ''admin'' ! 0)) example_now"
    by (simp add: example_tasks_of_def example_tasks_def)
  from locked_task_rejects_edit [OF example_py_int(1) a a1 a2 a3,
      of "example_world\<lparr>stdin := [''c'', ''yes'']\<rparr>"]
    locked_task_rejects_edit [OF example_py_int(2) b _ b2 b3,
      of "example_world\<lparr>stdin := [''d'', ''31-12-2100'']\<rparr>"]
  show ?thesis by (simp add: example_world_def)
qed

subsection \<open>Reassigning a task\<close>

lemma example_reassign:
  "map_sum id (\<lambda>r. (map username (fst r), tasks_txt (snd r), stdin (snd r)))
     (edit_task_details example_now (example_tasks_of ''alice'') ''2''
        (example_world\<lparr>stdin := [''u'', ''ghost'', ''admin'']\<rparr>))
   = Inr ([''ghost'', ''alice''],
          Some (''1;admin;Fix bug;desc;31-12-2099;01-01-2024;Yes'' @ [CHR 0x0A] @
                ''2;ghost;Write docs;text;31-12-2099;01-01-2024;No'' @ [CHR 0x0A] @
                ''3;alice;Test;all;01-01-2020;01-01-2019;No'' @ [CHR 0x0A]),
          [])"
  by code_simp

text \<open>
  C2 fails on the code: alice reassigns her open task 2 and enters the unregistered name
  ghost, then, asked again, the registered name admin. \<open>validate_if_username_registered\<close>
  returns admin, but \<open>edit_task_details\<close> ignores the returned name and stores ghost, in the
  task and in \<open>tasks.txt\<close>; ghost is not a key of the dict of users.
\<close>

theorem reassign_stores_unregistered_username:
  "map_sum id (\<lambda>r. (map username (fst r), tasks_txt (snd r), stdin (snd r)))
     (edit_task_details example_now (example_tasks_of ''alice'') ''2''
        (example_world\<lparr>stdin := [''u'', ''ghost'', ''admin'']\<rparr>))
   = Inr ([''ghost'', ''alice''],
          Some (''1;admin;Fix bug;desc;31-12-2099;01-01-2024;Yes'' @ [CHR 0x0A] @
                ''2;ghost;Write docs;text;31-12-2099;01-01-2024;No'' @ [CHR 0x0A] @
                ''3;alice;Test;all;01-01-2020;01-01-2019;No'' @ [CHR 0x0A]),
          [])
   \<and> read_users_file example_world = Inr example_users
   \<and> map_of example_users ''ghost'' = None"
  by (simp add: example_reassign example_read_users_file) (simp add: example_users_def)

section \<open>Properties of writing and loading\<close>

subsection \<open>Splitting, joining and numerals\<close>

lemma split_on_append:
  "c \<notin> set l \<Longrightarrow> split_on c (l @ c # rest) = l # split_on c rest"
  by (induction l) auto

lemma split_on_none: "c \<notin> set l \<Longrightarrow> split_on c l = [l]"
  by (induction l) auto

lemma split_on_join:
  "fs \<noteq> [] \<Longrightarrow> \<forall>f\<in>set fs. c \<notin> set f \<Longrightarrow> split_on c (join c fs) = fs"
proof (induction c fs rule: join.induct)
  case (1 c)
  then show ?case by simp
next
  case (2 c w)
  then show ?case by (simp add: split_on_none)
next
  case (3 c w v ws)
  then show ?case by (simp add: split_on_append)
qed

lemma set_join: "set (join c fs) \<subseteq> insert c (\<Union>f\<in>set fs. set f)"
  by (induction c fs rule: join.induct) auto

lemma split_on_lines:
  "\<forall>l\<in>set ls. c \<notin> set l \<Longrightarrow> split_on c (concat (map (\<lambda>l. l @ [c]) ls)) = ls @ [[]]"
  by (induction ls) (simp_all add: split_on_append)

lemma universal_newlines_id: "CHR 0x0D \<notin> set s \<Longrightarrow> universal_newlines s = s"
  by (induction s rule: universal_newlines.induct) auto

lemma is_digit_digit_char: "k < 10 \<Longrightarrow> is_digit (digit_char k)"
  by (simp add: is_digit_def digit_char_def)

lemma digit_val_digit_char: "k < 10 \<Longrightarrow> digit_val (digit_char k) = k"
  by (simp add: digit_val_def digit_char_def)

lemma str_nat_digits: "\<forall>c\<in>set (str_nat n). is_digit c"
proof (induction n rule: str_nat.induct)
  case (1 n)
  show ?case
  proof (cases "n < 10")
    case True
    then show ?thesis by (subst str_nat.simps) (simp add: is_digit_digit_char)
  next
    case False
    with 1 show ?thesis by (subst str_nat.simps) (simp add: is_digit_digit_char)
  qed
qed

lemma is_digit_not_special:
  "is_digit c \<Longrightarrow> c \<noteq> CHR '';'' \<and> c \<noteq> CHR 0x0A \<and> c \<noteq> CHR 0x0D \<and> c \<noteq> CHR ''-''"
  by (auto simp: is_digit_def)

lemma str_nat_small: "n < 10 \<Longrightarrow> str_nat n = [digit_char n]"
  by (subst str_nat.simps) simp

lemma str_nat_step: "\<not> n < 10 \<Longrightarrow> str_nat n = str_nat (n div 10) @ [digit_char (n mod 10)]"
  by (subst str_nat.simps) simp

lemma str_nat_4:
  assumes "1000 \<le> y" "y \<le> 9999"
  shows "str_nat y = [digit_char (y div 1000), digit_char (y div 100 mod 10),
                      digit_char (y div 10 mod 10), digit_char (y mod 10)]"
proof -
  have n: "\<not> y < 10" "\<not> y div 10 < 10" "\<not> y div 100 < 10" "y div 1000 < 10"
    using assms by auto
  have e: "y div 10 div 10 = y div 100" "y div 100 div 10 = y div 1000"
    by (simp_all add: div_mult2_eq [symmetric])
  have "str_nat y = str_nat (y div 10) @ [digit_char (y mod 10)]"
    by (rule str_nat_step [OF n(1)])
  also have "str_nat (y div 10) = str_nat (y div 100) @ [digit_char (y div 10 mod 10)]"
    using str_nat_step [OF n(2)] by (simp only: e)
  also have "str_nat (y div 100) = str_nat (y div 1000) @ [digit_char (y div 100 mod 10)]"
    using str_nat_step [OF n(3)] by (simp only: e)
  also have "str_nat (y div 1000) = [digit_char (y div 1000)]"
    by (rule str_nat_small [OF n(4)])
  finally show ?thesis by simp
qed

lemma year_text:
  assumes "1000 \<le> y" "y \<le> 9999"
  shows "year_directive (str_nat y)"
    and "group_value (str_nat y) = y"
    and "CHR ''-'' \<notin> set (str_nat y)"
proof -
  have k: "y div 1000 < 10" "y div 100 mod 10 < 10" "y div 10 mod 10 < 10" "y mod 10 < 10"
    using assms by simp_all
  show "year_directive (str_nat y)"
    using k by (simp add: str_nat_4 [OF assms] year_directive_def is_digit_digit_char)
  have e: "y div 10 div 10 = y div 100" "y div 100 div 10 = y div 1000"
    by (simp_all add: div_mult2_eq [symmetric])
  have 1: "y div 1000 * 10 + y div 100 mod 10 = y div 100"
    using div_mult_mod_eq [of "y div 100" 10] by (simp only: e)
  have 2: "y div 100 * 10 + y div 10 mod 10 = y div 10"
    using div_mult_mod_eq [of "y div 10" 10] by (simp only: e)
  have 3: "y div 10 * 10 + y mod 10 = y"
    by (rule div_mult_mod_eq)
  have "((y div 1000 * 10 + y div 100 mod 10) * 10 + y div 10 mod 10) * 10 + y mod 10 = y"
    by (simp only: 1 2 3)
  then show "group_value (str_nat y) = y"
    using k by (simp add: str_nat_4 [OF assms] group_value_def
        is_digit_digit_char digit_val_digit_char)
  show "CHR ''-'' \<notin> set (str_nat y)"
    using str_nat_digits [of y] is_digit_not_special by blast
qed

lemma days_in_month_le: "days_in_month y m \<le> 31"
  by (simp add: days_in_month_def)

subsection \<open>Dates written and parsed\<close>

lemma day_table:
  "list_all (\<lambda>d. day_directive (zero_pad 2 (str_nat d)) \<and> group_value (zero_pad 2 (str_nat d)) = d
      \<and> CHR ''-'' \<notin> set (zero_pad 2 (str_nat d))) [1..<32]"
  by code_simp

lemma month_table:
  "list_all (\<lambda>m. month_directive (zero_pad 2 (str_nat m)) \<and> group_value (zero_pad 2 (str_nat m)) = m
      \<and> CHR ''-'' \<notin> set (zero_pad 2 (str_nat m))) [1..<13]"
  by code_simp

lemma day_text:
  assumes "1 \<le> d" "d \<le> 31"
  shows "day_directive (zero_pad 2 (str_nat d))"
    and "group_value (zero_pad 2 (str_nat d)) = d"
    and "CHR ''-'' \<notin> set (zero_pad 2 (str_nat d))"
proof -
  from assms have "d \<in> set [1..<32]" by simp
  with day_table [unfolded list_all_iff]
  have "day_directive (zero_pad 2 (str_nat d)) \<and> group_value (zero_pad 2 (str_nat d)) = d
      \<and> CHR ''-'' \<notin> set (zero_pad 2 (str_nat d))" by (rule bspec)
  then show "day_directive (zero_pad 2 (str_nat d))"
    and "group_value (zero_pad 2 (str_nat d)) = d"
    and "CHR ''-'' \<notin> set (zero_pad 2 (str_nat d))" by simp_all
qed

lemma month_text:
  assumes "1 \<le> m" "m \<le> 12"
  shows "month_directive (zero_pad 2 (str_nat m))"
    and "group_value (zero_pad 2 (str_nat m)) = m"
    and "CHR ''-'' \<notin> set (zero_pad 2 (str_nat m))"
proof -
  from assms have "m \<in> set [1..<13]" by simp
  with month_table [unfolded list_all_iff]
  have "month_directive (zero_pad 2 (str_nat m)) \<and> group_value (zero_pad 2 (str_nat m)) = m
      \<and> CHR ''-'' \<notin> set (zero_pad 2 (str_nat m))" by (rule bspec)
  then show "month_directive (zero_pad 2 (str_nat m))"
    and "group_value (zero_pad 2 (str_nat m)) = m"
    and "CHR ''-'' \<notin> set (zero_pad 2 (str_nat m))" by simp_all
qed

lemma strptime_strftime_ymd:
  assumes "storable_ymd y m d"
  shows "strptime (strftime_ymd y m d) = Inr (midnight y m d)"
proof -
  from assms have v: "valid_ymd y m d" and y: "1000 \<le> y" "y \<le> 9999"
    and m: "1 \<le> m" "m \<le> 12" and d: "1 \<le> d"
    by (simp_all add: storable_ymd_def valid_ymd_def)
  from v have "d \<le> days_in_month y m" by (simp add: valid_ymd_def)
  then have d2: "d \<le> 31" using days_in_month_le [of y m] by (rule order_trans)
  note dt = day_text [OF d d2] and mt = month_text [OF m] and yt = year_text [OF y]
  have "strftime_ymd y m d =
      zero_pad 2 (str_nat d) @ CHR ''-'' # (zero_pad 2 (str_nat m) @ CHR ''-'' # str_nat y)"
    by (simp add: strftime_ymd_def)
  then have s: "split_on CHR ''-'' (strftime_ymd y m d)
      = [zero_pad 2 (str_nat d), zero_pad 2 (str_nat m), str_nat y]"
    by (simp only: split_on_append [OF dt(3)] split_on_append [OF mt(3)] split_on_none [OF yt(3)])
  show ?thesis
    by (simp add: strptime_def s midnight_def dt(1,2) mt(1,2) yt(1,2) v)
qed

subsection \<open>The file written and read\<close>

lemma clean_field_iff:
  "clean_field s \<longleftrightarrow> CHR '';'' \<notin> set s \<and> CHR 0x0A \<notin> set s \<and> CHR 0x0D \<notin> set s"
  by (auto simp: clean_field_def list_all_iff)

lemma clean_str_nat: "clean_field (str_nat n)"
  using str_nat_digits [of n] is_digit_not_special
  by (auto simp: clean_field_def list_all_iff)

lemma set_zero_pad: "set (zero_pad n s) \<subseteq> insert CHR ''0'' (set s)"
  by (auto simp: zero_pad_def)

lemma clean_zero_pad: "clean_field s \<Longrightarrow> clean_field (zero_pad n s)"
  using set_zero_pad [of n s] by (auto simp: clean_field_iff)

lemma clean_strftime_ymd: "clean_field (strftime_ymd y m d)"
proof -
  have "clean_field (zero_pad 2 (str_nat d))" "clean_field (zero_pad 2 (str_nat m))"
    "clean_field (str_nat y)"
    by (simp_all add: clean_zero_pad clean_str_nat)
  then show ?thesis by (simp add: clean_field_iff strftime_ymd_def)
qed

lemma clean_task_fields:
  assumes "storable t"
  shows "\<forall>f\<in>set (task_fields i t). clean_field f"
proof -
  have "clean_field (strftime_pydate (assigned_date t))"
    by (cases "assigned_date t") (simp_all add: strftime_def clean_strftime_ymd)
  moreover have "clean_field ''Yes''" "clean_field ''No''"
    by (simp_all add: clean_field_def)
  ultimately show ?thesis
    using assms by (simp add: task_fields_def storable_def clean_str_nat strftime_def clean_strftime_ymd)
qed

lemma join_task_fields_nonempty: "join CHR '';'' (task_fields i t) \<noteq> []"
  by (simp add: task_fields_def)

lemma join_clean:
  assumes "\<forall>f\<in>set fs. clean_field f"
  shows "CHR 0x0A \<notin> set (join CHR '';'' fs)" and "CHR 0x0D \<notin> set (join CHR '';'' fs)"
proof -
  have n: "c \<notin> set (join CHR '';'' fs)" if "c \<noteq> CHR '';''" "\<forall>f\<in>set fs. c \<notin> set f" for c
  proof
    assume "c \<in> set (join CHR '';'' fs)"
    with set_join [of "CHR '';''" fs] have "c \<in> insert CHR '';'' (\<Union>f\<in>set fs. set f)" by (rule subsetD)
    with that show False by auto
  qed
  from assms show "CHR 0x0A \<notin> set (join CHR '';'' fs)" by (intro n) (simp_all add: clean_field_iff)
  from assms show "CHR 0x0D \<notin> set (join CHR '';'' fs)" by (intro n) (simp_all add: clean_field_iff)
qed

lemma task_lines_from_eq:
  "task_lines_from i ts = map (\<lambda>l. l @ [CHR 0x0A]) (map (join CHR '';'') (task_fields_from i ts))"
  by (induction ts arbitrary: i) (simp_all add: task_line_def task_fields_def)

lemma task_fields_from_props:
  assumes "\<forall>t\<in>set ts. storable t" and "fs \<in> set (task_fields_from i ts)"
  shows "fs \<noteq> []" and "\<forall>f\<in>set fs. clean_field f" and "join CHR '';'' fs \<noteq> []"
proof -
  have "\<exists>j t. storable t \<and> fs = task_fields j t"
    using assms
  proof (induction ts arbitrary: i)
    case Nil
    then show ?case by simp
  next
    case (Cons a ts)
    then show ?case by (cases "fs = task_fields i a") auto
  qed
  then obtain j t where t: "storable t" and e: "fs = task_fields j t" by blast
  show "fs \<noteq> []" by (simp add: e task_fields_def)
  show "\<forall>f\<in>set fs. clean_field f" unfolding e by (rule clean_task_fields [OF t])
  show "join CHR '';'' fs \<noteq> []" unfolding e by (rule join_task_fields_nonempty)
qed

lemma read_written:
  assumes "\<forall>t\<in>set ts. storable t"
  shows "fst (read_tasks_file (w\<lparr>tasks_txt := Some (concat (task_lines_from i ts))\<rparr>))
           = task_fields_from i ts"
proof -
  let ?fss = "task_fields_from i ts"
  let ?ls = "map (join CHR '';'') ?fss"
  let ?content = "concat (map (\<lambda>l. l @ [CHR 0x0A]) ?ls)"
  have lf: "\<forall>l\<in>set ?ls. CHR 0x0A \<notin> set l"
    using join_clean(1) task_fields_from_props(2) [OF assms] by auto
  have cr: "\<forall>l\<in>set ?ls. CHR 0x0D \<notin> set l"
    using join_clean(2) task_fields_from_props(2) [OF assms] by auto
  have ne: "\<forall>l\<in>set ?ls. l \<noteq> []"
    using task_fields_from_props(3) [OF assms] by auto
  from cr have "CHR 0x0D \<notin> set ?content" by auto
  then have u: "universal_newlines ?content = ?content" by (rule universal_newlines_id)
  have s: "split_on CHR 0x0A ?content = ?ls @ [[]]" using lf by (rule split_on_lines)
  from ne have f: "filter (\<lambda>t. t \<noteq> []) (?ls @ [[]]) = ?ls" by (simp add: filter_id_conv)
  have "map (split_on CHR '';'') ?ls = map (\<lambda>fs. split_on CHR '';'' (join CHR '';'' fs)) ?fss"
    by simp
  also have "\<dots> = map (\<lambda>fs. fs) ?fss"
  proof (rule map_cong [OF refl])
    fix fs assume m: "fs \<in> set ?fss"
    from task_fields_from_props(2) [OF assms m] have "\<forall>f\<in>set fs. CHR '';'' \<notin> set f"
      by (simp add: clean_field_iff)
    with task_fields_from_props(1) [OF assms m] show "split_on CHR '';'' (join CHR '';'' fs) = fs"
      by (rule split_on_join)
  qed
  finally have j: "map (split_on CHR '';'') ?ls = ?fss" by simp
  have r: "fst (read_tasks_file (w\<lparr>tasks_txt := Some c\<rparr>)) =
      map (split_on CHR '';'') (filter (\<lambda>t. t \<noteq> []) (split_on CHR 0x0A (universal_newlines c)))" for c
    by (simp add: read_tasks_file_def)
  show ?thesis
    by (simp only: r task_lines_from_eq u s f j)
qed

lemma item_reloaded:
  assumes "storable t"
  shows "create_task_list_item i (task_fields i t) = Inr (reloaded i t)"
proof -
  from assms have d: "strptime (strftime (due_date t))
      = Inr (midnight (year (due_date t)) (month (due_date t)) (day (due_date t)))"
    by (simp add: storable_def strftime_def strptime_strftime_ymd)
  from assms have a: "strptime (strftime_pydate (assigned_date t))
      = Inr (case pydate_ymd (assigned_date t) of (y, m, d) \<Rightarrow> midnight y m d)"
    by (cases "assigned_date t") (simp_all add: storable_def strftime_def strptime_strftime_ymd)
  show ?thesis
    by (simp add: create_task_list_item_def task_fields_def nth_py_def d a reloaded_def)
qed

lemma create_task_list_from_reloaded:
  "\<forall>t\<in>set ts. storable t \<Longrightarrow>
   create_task_list_from i (task_fields_from i ts) = Inr (reloaded_from i ts)"
  by (induction ts arbitrary: i) (simp_all add: item_reloaded)

lemma reload_written:
  assumes "\<forall>t\<in>set ts. storable t"
  shows "reload (fst (write_new_task_to_tasks_file ts w)) = Inr (reloaded_from 1 ts)"
proof -
  have "fst (write_new_task_to_tasks_file ts w) =
      (if ts = [] then w\<lparr>tasks_txt := Some (concat (task_lines_from 1 ts))\<rparr>
       else print_msg (Out_task_added (length ts)) (w\<lparr>tasks_txt := Some (concat (task_lines_from 1 ts))\<rparr>))"
    by (simp add: write_new_task_to_tasks_file_def Let_def)
  also have "\<dots> = (if ts = [] then w else print_msg (Out_task_added (length ts)) w)
      \<lparr>tasks_txt := Some (concat (task_lines_from 1 ts))\<rparr>"
    by (simp add: print_msg_def)
  finally show ?thesis
    by (simp only: reload_def read_written [OF assms] create_task_list_def
        create_task_list_from_reloaded [OF assms])
qed

lemma reloaded_from_nth:
  "k < length ts \<Longrightarrow> reloaded_from i ts ! k = reloaded (i + k) (ts ! k)"
proof (induction ts arbitrary: i k)
  case Nil
  then show ?case by simp
next
  case (Cons t ts)
  then show ?case by (cases k) simp_all
qed

lemma length_reloaded_from: "length (reloaded_from i ts) = length ts"
  by (induction ts arbitrary: i) simp_all

text \<open>
  C9, as the code has it: let the usernames, titles and descriptions of a task list contain
  no semicolon and no line break, and let its dates be valid days of a year from 1000 to
  9999. Then writing the list with \<open>write_new_task_to_tasks_file\<close> and loading the file
  (\<open>read_tasks_file\<close>, then \<open>create_task_list\<close>) gives a list of the same length and order whose
  record at position \<open>k\<close> has the number \<open>k + 1\<close>, the same username, title, description and
  completed flag, and as due date and assigned date the datetime at midnight of the same
  day (the original value whenever that is such a datetime, as every date parsed by the
  program is; an assigned date set in this session is a \<open>date\<close> and comes back as a
  datetime).
\<close>

theorem write_then_reload:
  assumes "\<forall>t\<in>set task_list. storable t"
  shows "reload (fst (write_new_task_to_tasks_file task_list w)) = Inr (reloaded_from 1 task_list)
     \<and> length (reloaded_from 1 task_list) = length task_list
     \<and> (\<forall>k<length task_list.
          number (reloaded_from 1 task_list ! k) = int k + 1
        \<and> username (reloaded_from 1 task_list ! k) = username (task_list ! k)
        \<and> title (reloaded_from 1 task_list ! k) = title (task_list ! k)
        \<and> description (reloaded_from 1 task_list ! k) = description (task_list ! k)
        \<and> completed (reloaded_from 1 task_list ! k) = completed (task_list ! k)
        \<and> due_date (reloaded_from 1 task_list ! k) =
            midnight (year (due_date (task_list ! k))) (month (due_date (task_list ! k)))
              (day (due_date (task_list ! k)))
        \<and> assigned_date (reloaded_from 1 task_list ! k) =
            PyDatetime (case pydate_ymd (assigned_date (task_list ! k)) of
                          (y, m, d) \<Rightarrow> midnight y m d))"
  by (simp add: reload_written [OF assms] length_reloaded_from reloaded_from_nth reloaded_def)

lemma example_tasks_storable: "list_all storable example_tasks"
  by code_simp

lemma example_reloaded: "reloaded_from 1 example_tasks = example_tasks"
  by (simp add: example_tasks_def reloaded_def midnight_def)

theorem write_then_reload_witness:
  "reload (fst (write_new_task_to_tasks_file example_tasks example_world)) = Inr example_tasks"
proof -
  from example_tasks_storable have "\<forall>t\<in>set example_tasks. storable t"
    by (simp only: list_all_iff)
  from write_then_reload [OF this, of example_world] show ?thesis
    by (simp only: example_reloaded)
qed

text \<open>
  C9 as stated fails: the delimiter is not escaped, so a task whose title contains a
  semicolon is written as a line of eight fields, and loading the file raises ValueError
  (the description is read where the due date is expected). And a task added in this
  session holds a \<open>date\<close> as its assigned date, which comes back as a datetime, a different
  value.
\<close>

lemma semicolon_reload:
  "reload (fst (write_new_task_to_tasks_file [semicolon_task] example_world)) = Inl ValueError"
  by code_simp

lemma session_reload:
  "map_sum id (map assigned_date) (reload (fst (write_new_task_to_tasks_file session_tasks example_world)))
     = Inr [PyDatetime \<lparr>year = 2026, month = 11, day = 4,
                          hour = 0, minute = 0, second = 0, microsecond = 0\<rparr>]"
  by code_simp

lemma session_assigned: "map assigned_date session_tasks = [PyDate 2026 11 4]"
  by (simp add: session_tasks_def add_new_task_to_task_list_def)

theorem write_then_reload_counterexample:
  "reload (fst (write_new_task_to_tasks_file [semicolon_task] example_world)) = Inl ValueError
   \<and> reload (fst (write_new_task_to_tasks_file [semicolon_task] example_world))
       \<noteq> Inr [semicolon_task]
   \<and> map_sum id (map assigned_date)
         (reload (fst (write_new_task_to_tasks_file session_tasks example_world)))
       = Inr [PyDatetime \<lparr>year = 2026, month = 11, day = 4,
                            hour = 0, minute = 0, second = 0, microsecond = 0\<rparr>]
   \<and> map assigned_date session_tasks = [PyDate 2026 11 4]"
  by (simp add: semicolon_reload session_reload session_assigned)

subsection \<open>A percentage below the exact quotient\<close>

lemma figures_countsE:
  assumes "generate_reports_figures d up td = Inr (ov, uv)"
  obtains tasks where "create_task_list td = Inr tasks"
    and "ov_total_tasks ov = length tasks"
    and "ov_uncompleted ov = length (filter (\<lambda>t. \<not> completed t) tasks)"
    and "ov_percentage_uncompleted ov = percentage (ov_uncompleted ov) (ov_total_tasks ov)"
proof -
  from figures_Inr [OF assms] obtain tasks us where
    "create_task_list td = Inr tasks
     \<and> (\<forall>t\<in>set tasks. username t \<in> fst ` set up)
     \<and> map fst us = map fst (gr_user_stats up)
     \<and> ov = \<lparr>ov_total_tasks = length tasks,
                ov_completed = length (filter completed tasks),
                ov_uncompleted = length (filter (\<lambda>t. \<not> completed t) tasks),
                ov_percentage_uncompleted =
                  percentage (length (filter (\<lambda>t. \<not> completed t) tasks)) (length tasks),
                ov_uncompleted_overdue = length (filter (\<lambda>t. \<not> completed t \<and> dt_le (due_date t) d) tasks),
                ov_percentage_overdue =
                  percentage (length (filter (\<lambda>t. \<not> completed t \<and> dt_le (due_date t) d) tasks)) (length tasks)\<rparr>
     \<and> uv = \<lparr>uov_total_users = length up,
                uov_total_tasks = length tasks,
                uov_entries = map (user_entry_of (length tasks)) us\<rparr>"
    by (elim exE)
  then show ?thesis by (intro that [of tasks]) simp_all
qed

lemma reloaded_from_uncompleted:
  "length (filter (\<lambda>t. \<not> completed t) (reloaded_from i ts)) = length (filter (\<lambda>t. \<not> completed t) ts)"
  by (induction ts arbitrary: i) (simp_all add: reloaded_def)

lemma reloaded_from_usernames: "username ` set (reloaded_from i ts) = username ` set ts"
  by (induction ts arbitrary: i) (simp_all add: reloaded_def)

lemma read_users_file_cong: "user_txt w = user_txt w' \<Longrightarrow> read_users_file w = read_users_file w'"
  by (simp add: read_users_file_def)

lemma write_keeps_user_txt: "user_txt (fst (write_new_task_to_tasks_file ts w)) = user_txt w"
  by (simp add: write_new_task_to_tasks_file_def Let_def print_msg_def)

lemma write_sets_tasks_txt: "tasks_txt (fst (write_new_task_to_tasks_file ts w)) \<noteq> None"
  by (simp add: write_new_task_to_tasks_file_def Let_def print_msg_def)

lemma read_tasks_file_keeps_world: "tasks_txt w \<noteq> None \<Longrightarrow> snd (read_tasks_file w) = w"
  by (auto simp: read_tasks_file_def split: option.splits)

lemma fifty_storable: "\<forall>t\<in>set fifty_tasks. storable t"
proof -
  from example_tasks_storable have "\<forall>i<length example_tasks. storable (example_tasks ! i)"
    by (simp only: list_all_length)
  moreover have "0 < length example_tasks" "1 < length example_tasks"
    by (simp_all add: example_tasks_def)
  ultimately have "storable (example_tasks ! 0)" "storable (example_tasks ! 1)" by blast+
  then show ?thesis by (auto simp: fifty_tasks_def)
qed

lemma fifty_counts:
  "length fifty_tasks = 50" "length (filter (\<lambda>t. \<not> completed t) fifty_tasks) = 29"
  "username ` set fifty_tasks \<subseteq> fst ` set example_users"
  by (simp_all add: fifty_tasks_def example_tasks_def example_users_def)

text \<open>
  C7 fails on the code: with fifty tasks of which twenty-nine are not completed, both
  statistics functions show 57 as the percentage of uncompleted tasks, while the exact
  quotient times 100 is 58. The quotient \<open>29 / 50\<close> is rounded to a double below 0.58, its
  product with 100 is rounded to a double below 58, and \<open>int\<close> truncates it to 57.
\<close>

theorem percentage_of_29_in_50:
  "\<exists>ov uv. generate_reports_option example_now fifty_world = Inr (ov, uv, fifty_world)
     \<and> display_stats_option example_now fifty_world = Inr (ov, uv, fifty_world)
     \<and> ov_total_tasks ov = 50 \<and> ov_uncompleted ov = 29
     \<and> ov_percentage_uncompleted ov = 57
     \<and> 100 * ov_uncompleted ov div ov_total_tasks ov = 58"
proof -
  obtain td w2 where rd: "read_tasks_file fifty_world = (td, w2)"
    by (cases "read_tasks_file fifty_world")
  have "tasks_txt fifty_world \<noteq> None"
    by (simp only: fifty_world_def write_sets_tasks_txt not_False_eq_True)
  then have "snd (read_tasks_file fifty_world) = fifty_world" by (rule read_tasks_file_keeps_world)
  with rd have w2: "w2 = fifty_world" by simp
  have "reload fifty_world = Inr (reloaded_from 1 fifty_tasks)"
    using reload_written [OF fifty_storable, of example_world] by (simp only: fifty_world_def)
  with rd have c: "create_task_list td = Inr (reloaded_from 1 fifty_tasks)"
    by (simp add: reload_def)
  have "username ` set (reloaded_from 1 fifty_tasks) \<subseteq> fst ` set example_users"
    by (simp only: reloaded_from_usernames fifty_counts(3))
  then have k: "\<forall>t\<in>set (reloaded_from 1 fifty_tasks). username t \<in> fst ` set example_users"
    by blast
  from figures_known [OF c k, of example_now]
  obtain ov uv where r: "generate_reports_figures example_now example_users td = Inr (ov, uv)"
    by auto
  from r obtain tasks where t: "create_task_list td = Inr tasks"
    and n: "ov_total_tasks ov = length tasks"
    and u: "ov_uncompleted ov = length (filter (\<lambda>t. \<not> completed t) tasks)"
    and p: "ov_percentage_uncompleted ov = percentage (ov_uncompleted ov) (ov_total_tasks ov)"
    by (rule figures_countsE)
  from t c have e: "tasks = reloaded_from 1 fifty_tasks" by simp
  have n50: "ov_total_tasks ov = 50"
    by (simp only: n e length_reloaded_from fifty_counts(1))
  have u29: "ov_uncompleted ov = 29"
    by (simp only: u e reloaded_from_uncompleted fifty_counts(2))
  have p57: "ov_percentage_uncompleted ov = 57"
    by (simp only: p n50 u29 percentage_examples(4))
  have ut: "user_txt fifty_world = user_txt example_world"
    by (simp only: fifty_world_def write_keeps_user_txt)
  have us: "read_users_file fifty_world = Inr example_users"
    using read_users_file_cong [OF ut] by (simp only: example_read_users_file)
  have cu: "create_user_file_if_not_found fifty_world = fifty_world"
    by (simp add: create_user_file_if_not_found_def ut example_world_def)
  have g: "generate_reports_option example_now fifty_world = Inr (ov, uv, fifty_world)"
    by (simp add: generate_reports_option_def cu create_user_pass_dictionary_def us rd r w2)
  have "(100 * 29) div 50 = (58::nat)" by simp
  with g n50 u29 p57 show ?thesis
    by (intro exI [of _ ov] exI [of _ uv]) (simp add: display_stats_option_eq)
qed

end
